theory Spec2Isabelle
  imports Complex_Main
begin

unbundle bit_operations_syntax

section \<open>Gesture encodings and landmarks\<close>

text \<open>
  The classes \<open>Gest\<close> and \<open>HLabel\<close> of \<open>gcpy.py\<close> are \<open>IntEnum\<close>s: their members
  are compared with plain integers (\<open>self.finger\<close>) by value, so a gesture is an \<open>int\<close>.
  Python floats are idealised as real numbers throughout.
\<close>

definition FIST :: int where "FIST = 0"
definition PINKY :: int where "PINKY = 1"
definition RING :: int where "RING = 2"
definition MID :: int where "MID = 4"
definition LAST3 :: int where "LAST3 = 7"
definition INDEX :: int where "INDEX = 8"
definition FIRST2 :: int where "FIRST2 = 12"
definition LAST4 :: int where "LAST4 = 15"
definition THUMB :: int where "THUMB = 16"
definition PALM :: int where "PALM = 31"
definition V_GEST :: int where "V_GEST = 33"
definition TWO_FINGER_CLOSED :: int where "TWO_FINGER_CLOSED = 34"
definition PINCH_MAJOR :: int where "PINCH_MAJOR = 35"
definition PINCH_MINOR :: int where "PINCH_MINOR = 36"

definition MINOR :: int where "MINOR = 0"
definition MAJOR :: int where "MAJOR = 1"

datatype py_error =
  IndexError | KeyError | ZeroDivisionError | TypeError
  | NameError string | AttributeError string

record landmark =
  lm_x :: real
  lm_y :: real
  lm_z :: real

text \<open>\<open>hand_result.landmark[i]\<close>: reading past the end raises \<open>IndexError\<close>.\<close>

definition landmark_at :: "landmark list \<Rightarrow> nat \<Rightarrow> py_error + landmark" where
  "landmark_at h i = (if i < length h then Inr (h ! i) else Inl IndexError)"

text \<open>
  \<open>round(v, 1)\<close> on a float: the nearest multiple of one tenth, a tie going to the even
  digit.
\<close>

definition round_half_even :: "real \<Rightarrow> int" where
  "round_half_even r =
     (let f = \<lfloor>r\<rfloor>; d = r - of_int f
      in if d < 1 / 2 then f else if 1 / 2 < d then f + 1
         else if even f then f else f + 1)"

definition py_round1 :: "real \<Rightarrow> real" where
  "py_round1 v = of_int (round_half_even (v * 10)) / 10"

section \<open>HandRecog\<close>

text \<open>
  \<open>frame_count\<close> starts at 0 and is only reset to 0 or incremented, so it is a \<open>nat\<close>.
\<close>

record HandRecog =
  finger :: int
  ori_gesture :: int
  prev_gesture :: int
  frame_count :: nat
  hand_result :: "landmark list option"
  hand_label :: int

definition HandRecog_init :: "int \<Rightarrow> HandRecog" where
  "HandRecog_init label =
     \<lparr>finger = 0, ori_gesture = PALM, prev_gesture = PALM, frame_count = 0,
      hand_result = None, hand_label = label\<rparr>"

definition update_hand_result :: "landmark list option \<Rightarrow> HandRecog \<Rightarrow> HandRecog" where
  "update_hand_result r st = st\<lparr>hand_result := r\<rparr>"

definition get_signed_dist :: "landmark list \<Rightarrow> nat \<times> nat \<Rightarrow> py_error + real" where
  "get_signed_dist h point =
     (case landmark_at h (fst point) of Inl e \<Rightarrow> Inl e | Inr a \<Rightarrow>
      case landmark_at h (snd point) of Inl e \<Rightarrow> Inl e | Inr b \<Rightarrow>
        (let sign = (if lm_y a < lm_y b then 1 else - 1);
             d = sqrt ((lm_x a - lm_x b)\<^sup>2 + (lm_y a - lm_y b)\<^sup>2)
         in Inr (d * sign)))"

definition get_dist :: "landmark list \<Rightarrow> nat \<times> nat \<Rightarrow> py_error + real" where
  "get_dist h point =
     (case landmark_at h (fst point) of Inl e \<Rightarrow> Inl e | Inr a \<Rightarrow>
      case landmark_at h (snd point) of Inl e \<Rightarrow> Inl e | Inr b \<Rightarrow>
        Inr (sqrt ((lm_x a - lm_x b)\<^sup>2 + (lm_y a - lm_y b)\<^sup>2)))"

definition get_dz :: "landmark list \<Rightarrow> nat \<times> nat \<Rightarrow> py_error + real" where
  "get_dz h point =
     (case landmark_at h (fst point) of Inl e \<Rightarrow> Inl e | Inr a \<Rightarrow>
      case landmark_at h (snd point) of Inl e \<Rightarrow> Inl e | Inr b \<Rightarrow>
        Inr \<bar>lm_z a - lm_z b\<bar>)"

text \<open>
  One pass of the loop body of \<open>set_finger_state\<close> up to the ratio. Both distances are
  computed before the \<open>try\<close> (\<open>d\<close> and \<open>d2\<close> stand for the source's \<open>dist\<close> and
  \<open>dist2\<close>). A zero \<open>dist2\<close> raises \<open>ZeroDivisionError\<close> inside the
  \<open>try\<close>; the handler then evaluates \<open>dist1\<close>, a name that is bound nowhere, so the
  handler itself raises \<open>NameError\<close>.
\<close>

definition finger_ratio :: "landmark list \<Rightarrow> nat \<times> nat \<times> nat \<Rightarrow> py_error + real" where
  "finger_ratio h point =
     (case get_signed_dist h (fst point, fst (snd point)) of Inl e \<Rightarrow> Inl e | Inr d \<Rightarrow>
      case get_signed_dist h (fst (snd point), snd (snd point)) of Inl e \<Rightarrow> Inl e | Inr d2 \<Rightarrow>
        if d2 = 0 then Inl (NameError ''dist1'') else Inr (py_round1 (d / d2)))"

definition points :: "(nat \<times> nat \<times> nat) list" where
  "points = [(8, 5, 0), (12, 9, 0), (16, 13, 0), (20, 17, 0)]"

fun finger_loop :: "landmark list \<Rightarrow> (nat \<times> nat \<times> nat) list \<Rightarrow> int \<Rightarrow> py_error + int" where
  "finger_loop h [] f = Inr f"
| "finger_loop h (point # ps) f =
     (case finger_ratio h point of Inl e \<Rightarrow> Inl e | Inr ratio \<Rightarrow>
        (let f1 = push_bit 1 f
         in finger_loop h ps (if 0.5 < ratio then f1 OR 1 else f1)))"

definition set_finger_state :: "HandRecog \<Rightarrow> py_error + HandRecog" where
  "set_finger_state st =
     (case hand_result st of None \<Rightarrow> Inr st | Some h \<Rightarrow>
      case finger_loop h points (0 OR 0) of Inl e \<Rightarrow> Inl e | Inr f \<Rightarrow>
        Inr (st\<lparr>finger := f\<rparr>))"

text \<open>The raw candidate \<open>current_gesture\<close> of \<open>get_gesture\<close>, before the debounce.\<close>

definition pinch_test :: "HandRecog \<Rightarrow> landmark list \<Rightarrow> py_error + bool" where
  "pinch_test st h =
     (if finger st = LAST3 \<or> finger st = LAST4
      then (case get_dist h (8, 4) of Inl e \<Rightarrow> Inl e | Inr d \<Rightarrow> Inr (d < 0.05))
      else Inr False)"

definition first2_gesture :: "landmark list \<Rightarrow> py_error + int" where
  "first2_gesture h =
     (case get_dist h (8, 12) of Inl e \<Rightarrow> Inl e | Inr d1 \<Rightarrow>
      case get_dist h (5, 9) of Inl e \<Rightarrow> Inl e | Inr d2 \<Rightarrow>
        if d2 = 0 then Inl ZeroDivisionError
        else if 1.7 < d1 / d2 then Inr V_GEST
        else (case get_dz h (8, 12) of Inl e \<Rightarrow> Inl e | Inr dz \<Rightarrow>
                if dz < 0.1 then Inr TWO_FINGER_CLOSED else Inr MID))"

definition current_gesture :: "HandRecog \<Rightarrow> landmark list \<Rightarrow> py_error + int" where
  "current_gesture st h =
     (case pinch_test st h of Inl e \<Rightarrow> Inl e | Inr pinch \<Rightarrow>
        if pinch then (if hand_label st = MINOR then Inr PINCH_MINOR else Inr PINCH_MAJOR)
        else if FIRST2 = finger st then first2_gesture h
        else Inr (finger st))"

text \<open>Lines 205 to 214: the run counter and the settled gesture.\<close>

definition debounce :: "int \<Rightarrow> HandRecog \<Rightarrow> int \<times> HandRecog" where
  "debounce cur st =
     (let fc = (if cur = prev_gesture st then frame_count st + 1 else 0);
          st1 = st\<lparr>frame_count := fc, prev_gesture := cur\<rparr>;
          st2 = (if 4 < fc then st1\<lparr>ori_gesture := cur\<rparr> else st1)
      in (ori_gesture st2, st2))"

definition get_gesture :: "HandRecog \<Rightarrow> py_error + int \<times> HandRecog" where
  "get_gesture st =
     (case hand_result st of None \<Rightarrow> Inr (PALM, st) | Some h \<Rightarrow>
      case current_gesture st h of Inl e \<Rightarrow> Inl e | Inr cur \<Rightarrow> Inr (debounce cur st))"

text \<open>
  What the frame loop does with one recogniser per frame: \<open>update_hand_result\<close>,
  \<open>set_finger_state\<close>, \<open>get_gesture\<close>.
\<close>

definition recog_frame :: "landmark list option \<Rightarrow> HandRecog \<Rightarrow> py_error + int \<times> HandRecog" where
  "recog_frame r st =
     (case set_finger_state (update_hand_result r st) of Inl e \<Rightarrow> Inl e | Inr st1 \<Rightarrow>
        get_gesture st1)"

fun feed :: "landmark list option list \<Rightarrow> HandRecog \<Rightarrow> py_error + int list \<times> HandRecog" where
  "feed [] st = Inr ([], st)"
| "feed (r # rs) st =
     (case recog_frame r st of Inl e \<Rightarrow> Inl e | Inr (g, st1) \<Rightarrow>
      case feed rs st1 of Inl e \<Rightarrow> Inl e | Inr (gs, st2) \<Rightarrow> Inr (g # gs, st2))"

section \<open>Controller\<close>

text \<open>
  The calls into \<open>pyautogui\<close> that act on the desktop are recorded as a list of actions,
  in call order. \<open>pyautogui.click()\<close> without a button presses the primary one.
  \<open>pyautogui.size()\<close> and \<open>pyautogui.position()\<close> are read from the environment of
  the call. The messages of \<open>print\<close> are left out.
\<close>

datatype action =
  MoveTo "real option" "real option"
  | MouseDown string
  | MouseUp string
  | Click string
  | DoubleClick
  | Scroll int
  | KeyDown string
  | KeyUp string

record os_env =
  screen_size :: "int \<times> int"
  cursor_position :: "int \<times> int"

text \<open>The class attributes of \<open>Controller\<close>; \<open>framecount\<close> is a counter like \<open>frame_count\<close>.\<close>

record Controller =
  tx_old :: int
  ty_old :: int
  trial :: bool
  flag :: bool
  grabflag :: bool
  pinchmajorflag :: bool
  pinchminorflag :: bool
  pinchstartxcoord :: "real option"
  pinchstartycoord :: "real option"
  pinchdirectionflag :: "bool option"
  prevpinchlv :: real
  pinchlv :: real
  framecount :: nat
  prev_hand :: "(int \<times> int) option"
  pinch_threshold :: real

definition Controller_init :: Controller where
  "Controller_init =
     \<lparr>tx_old = 0, ty_old = 0, trial = True, flag = False, grabflag = False,
      pinchmajorflag = False, pinchminorflag = False, pinchstartxcoord = None,
      pinchstartycoord = None, pinchdirectionflag = None, prevpinchlv = 0, pinchlv = 0,
      framecount = 0, prev_hand = None, pinch_threshold = 0.3\<rparr>"

text \<open>\<open>hand_result.landmark[i]\<close> where \<open>hand_result\<close> may be \<open>None\<close>.\<close>

definition hand_landmark :: "landmark list option \<Rightarrow> nat \<Rightarrow> py_error + landmark" where
  "hand_landmark r i =
     (case r of None \<Rightarrow> Inl (AttributeError ''landmark'') | Some h \<Rightarrow> landmark_at h i)"

definition getpinchylv :: "landmark list option \<Rightarrow> Controller \<Rightarrow> py_error + real" where
  "getpinchylv r c =
     (case hand_landmark r 8 of Inl e \<Rightarrow> Inl e | Inr p \<Rightarrow>
      case pinchstartycoord c of None \<Rightarrow> Inl TypeError | Some s \<Rightarrow>
        Inr (py_round1 ((s - lm_y p) * 10)))"

definition getpinchxlv :: "landmark list option \<Rightarrow> Controller \<Rightarrow> py_error + real" where
  "getpinchxlv r c =
     (case hand_landmark r 8 of Inl e \<Rightarrow> Inl e | Inr p \<Rightarrow>
      case pinchstartxcoord c of None \<Rightarrow> Inl TypeError | Some s \<Rightarrow>
        Inr (py_round1 ((lm_x p - s) * 10)))"

definition scrollVertical :: "Controller \<Rightarrow> action list" where
  "scrollVertical c = [Scroll (if 0 < pinchlv c then 120 else - 120)]"

definition scrollHorizontal :: "Controller \<Rightarrow> action list" where
  "scrollHorizontal c =
     [KeyDown ''shift'', KeyDown ''ctrl'', Scroll (if 0 < pinchlv c then - 120 else 120),
      KeyUp ''ctrl'', KeyUp ''shift'']"

text \<open>\<open>int(v)\<close> on a float truncates towards zero.\<close>

definition py_int :: "real \<Rightarrow> int" where
  "py_int v = (if 0 \<le> v then \<lfloor>v\<rfloor> else \<lceil>v\<rceil>)"

text \<open>
  \<open>get_position\<close>: the only statement of the \<open>try\<close> block that can raise is the read of
  landmark 9, before anything is assigned; both handlers return \<open>(0, 0)\<close>.
\<close>

definition damping_ratio :: "int \<Rightarrow> real" where
  "damping_ratio distsq =
     (if distsq \<le> 25 then 0
      else if distsq \<le> 900 then 0.07 * sqrt (of_int distsq)
      else 2.1)"

definition get_position ::
  "os_env \<Rightarrow> landmark list option \<Rightarrow> Controller \<Rightarrow> (real \<times> real) \<times> Controller" where
  "get_position env r c =
     (case hand_landmark r 9 of Inl e \<Rightarrow> ((0, 0), c) | Inr p \<Rightarrow>
        (let sx = fst (screen_size env); sy = snd (screen_size env);
             x_old = fst (cursor_position env); y_old = snd (cursor_position env);
             x = py_int (lm_x p * of_int sx);
             y = py_int (lm_y p * of_int sy);
             prev = (case prev_hand c of None \<Rightarrow> (x, y) | Some q \<Rightarrow> q);
             delta_x = x - fst prev;
             delta_y = y - snd prev;
             distsq = delta_x\<^sup>2 + delta_y\<^sup>2;
             ratio = damping_ratio distsq
         in ((of_int x_old + of_int delta_x * ratio, of_int y_old + of_int delta_y * ratio),
             c\<lparr>prev_hand := Some (x, y)\<rparr>)))"

definition pinch_control_init :: "landmark list option \<Rightarrow> Controller \<Rightarrow> py_error + Controller" where
  "pinch_control_init r c =
     (case hand_landmark r 8 of Inl e \<Rightarrow> Inl e | Inr p \<Rightarrow>
        Inr (c\<lparr>pinchstartxcoord := Some (lm_x p), pinchstartycoord := Some (lm_y p),
               pinchlv := 0, prevpinchlv := 0, framecount := 0\<rparr>))"

text \<open>Lines 364 to 371 of \<open>pinch_control\<close>: the commit of a scroll step.\<close>

definition pinch_commit ::
  "(Controller \<Rightarrow> action list) \<Rightarrow> (Controller \<Rightarrow> action list) \<Rightarrow> Controller
     \<Rightarrow> action list \<times> Controller" where
  "pinch_commit controlHorizontal controlVertical c =
     (if framecount c = 5
      then (let c1 = c\<lparr>framecount := 0, pinchlv := prevpinchlv c\<rparr>
            in if pinchdirectionflag c1 = Some True then (controlHorizontal c1, c1)
               else (controlVertical c1, c1))
      else ([], c))"

text \<open>Lines 376 to 389 of \<open>pinch_control\<close>: the axis and the stability counter.\<close>

definition pinch_track :: "real \<Rightarrow> real \<Rightarrow> Controller \<Rightarrow> Controller" where
  "pinch_track lvx lvy c =
     (if \<bar>lvx\<bar> < \<bar>lvy\<bar> \<and> pinch_threshold c < \<bar>lvy\<bar>
      then (let c1 = c\<lparr>pinchdirectionflag := Some False\<rparr>
            in if \<bar>prevpinchlv c1 - lvy\<bar> < pinch_threshold c1
               then c1\<lparr>framecount := framecount c1 + 1\<rparr>
               else c1\<lparr>prevpinchlv := lvy, framecount := 0\<rparr>)
      else if pinch_threshold c < \<bar>lvx\<bar>
      then (let c1 = c\<lparr>pinchdirectionflag := Some True\<rparr>
            in if \<bar>prevpinchlv c1 - lvx\<bar> < pinch_threshold c1
               then c1\<lparr>framecount := framecount c1 + 1\<rparr>
               else c1\<lparr>prevpinchlv := lvx, framecount := 0\<rparr>)
      else c)"

definition pinch_control ::
  "landmark list option \<Rightarrow> (Controller \<Rightarrow> action list) \<Rightarrow> (Controller \<Rightarrow> action list)
     \<Rightarrow> Controller \<Rightarrow> py_error + action list \<times> Controller" where
  "pinch_control r controlHorizontal controlVertical c =
     (let (acts, c1) = pinch_commit controlHorizontal controlVertical c
      in case getpinchxlv r c1 of Inl e \<Rightarrow> Inl e | Inr lvx \<Rightarrow>
         case getpinchylv r c1 of Inl e \<Rightarrow> Inl e | Inr lvy \<Rightarrow>
           Inr (acts, pinch_track lvx lvy c1))"

text \<open>
  \<open>handle_controls\<close>. The last branch calls \<open>Controller.get_pinch_gap\<close>, an attribute the
  class does not have, so entering it would raise \<open>AttributeError\<close> at once.
\<close>

definition flag_reset :: "int \<Rightarrow> Controller \<Rightarrow> action list \<times> Controller" where
  "flag_reset gesture c =
     (let (a1, c1) = (if gesture \<noteq> FIST \<and> grabflag c
                      then ([MouseUp ''left''], c\<lparr>grabflag := False\<rparr>) else ([], c));
          c2 = (if gesture \<noteq> PINCH_MAJOR \<and> pinchmajorflag c1
                then c1\<lparr>pinchmajorflag := False\<rparr> else c1);
          c3 = (if gesture \<noteq> PINCH_MINOR \<and> pinchminorflag c2
                then c2\<lparr>pinchminorflag := False\<rparr> else c2)
      in (a1, c3))"

definition handle_controls ::
  "os_env \<Rightarrow> int \<Rightarrow> landmark list option \<Rightarrow> Controller
     \<Rightarrow> py_error + action list \<times> Controller" where
  "handle_controls env gesture r c =
     (let (xy, c0) = (if gesture \<noteq> PALM
                      then (let (q, c') = get_position env r c in (Some q, c'))
                      else (None, c));
          x = map_option fst xy;
          y = map_option snd xy;
          (a1, c1) = flag_reset gesture c0
      in if gesture = V_GEST then Inr (a1 @ [MoveTo x y], c1\<lparr>flag := True\<rparr>)
         else if gesture = FIST
         then (if \<not> grabflag c1
               then Inr (a1 @ [MouseDown ''left'', MoveTo x y], c1\<lparr>grabflag := True\<rparr>)
               else Inr (a1 @ [MoveTo x y], c1))
         else if gesture = MID \<and> flag c1
         then Inr (a1 @ [Click ''primary''], c1\<lparr>flag := False\<rparr>)
         else if gesture = INDEX \<and> flag c1
         then Inr (a1 @ [Click ''right''], c1\<lparr>flag := False\<rparr>)
         else if gesture = TWO_FINGER_CLOSED \<and> flag c1
         then Inr (a1 @ [DoubleClick], c1\<lparr>flag := False\<rparr>)
         else if gesture = PINCH_MINOR
         then (case (if \<not> pinchminorflag c1
                     then (case pinch_control_init r c1 of Inl e \<Rightarrow> Inl e
                           | Inr c2 \<Rightarrow> Inr (c2\<lparr>pinchminorflag := True\<rparr>))
                     else Inr c1) of
                 Inl e \<Rightarrow> Inl e
               | Inr c3 \<Rightarrow>
                  (case pinch_control r scrollHorizontal scrollVertical c3 of
                     Inl e \<Rightarrow> Inl e
                   | Inr (a2, c4) \<Rightarrow> Inr (a1 @ a2, c4)))
         else if gesture = PINCH_MAJOR \<and> gesture = PINCH_MINOR
         then Inl (AttributeError ''get_pinch_gap'')
         else Inr (a1, c1))"

section \<open>GestureController\<close>

text \<open>
  An entry of \<open>results.multi_handedness\<close> is a message that \<open>MessageToDict\<close> turns into
  nested dictionaries and lists; something that is no message makes \<open>MessageToDict\<close>
  raise. The converted value is kept as a JSON-like tree.
\<close>

datatype json =
  JNull
  | JNum real
  | JStr string
  | JList "json list"
  | JDict "(string \<times> json) list"

datatype payload = NotAMessage | Message json

definition MessageToDict :: "payload \<Rightarrow> py_error + json" where
  "MessageToDict m =
     (case m of NotAMessage \<Rightarrow> Inl (AttributeError ''DESCRIPTOR'') | Message j \<Rightarrow> Inr j)"

text \<open>\<open>v[key]\<close> with a string key and \<open>v[i]\<close> with an index, as Python evaluates them.\<close>

fun get_key :: "json \<Rightarrow> string \<Rightarrow> py_error + json" where
  "get_key (JDict kvs) k = (case map_of kvs k of None \<Rightarrow> Inl KeyError | Some v \<Rightarrow> Inr v)"
| "get_key _ k = Inl TypeError"

fun get_index :: "json \<Rightarrow> nat \<Rightarrow> py_error + json" where
  "get_index (JList xs) i = (if i < length xs then Inr (xs ! i) else Inl IndexError)"
| "get_index (JStr cs) i = (if i < length cs then Inr (JStr [cs ! i]) else Inl IndexError)"
| "get_index (JDict kvs) i = Inl KeyError"
| "get_index _ i = Inl TypeError"

text \<open>\<open>xs[i]\<close> on an attribute of \<open>results\<close> that is \<open>None\<close> when no hand was found.\<close>

definition opt_index :: "'a list option \<Rightarrow> nat \<Rightarrow> py_error + 'a" where
  "opt_index xs i =
     (case xs of None \<Rightarrow> Inl TypeError
      | Some ys \<Rightarrow> if i < length ys then Inr (ys ! i) else Inl IndexError)"

record results =
  multi_hand_landmarks :: "landmark list list option"
  multi_handedness :: "payload list option"

record GestureController =
  hr_major :: "landmark list option"
  hr_minor :: "landmark list option"
  dom_hand :: bool

definition GestureController_init :: GestureController where
  "GestureController_init = \<lparr>hr_major = None, hr_minor = None, dom_hand = True\<rparr>"

text \<open>
  The label of detection \<open>i\<close>: \<open>MessageToDict(results.multi_handedness[i])\<close> followed by
  \<open>['classification'][0]['label']\<close>.
\<close>

definition handedness_label :: "results \<Rightarrow> nat \<Rightarrow> py_error + json" where
  "handedness_label res i =
     (case opt_index (multi_handedness res) i of Inl e \<Rightarrow> Inl e | Inr m \<Rightarrow>
      case MessageToDict m of Inl e \<Rightarrow> Inl e | Inr handedness_dict \<Rightarrow>
      case get_key handedness_dict ''classification'' of Inl e \<Rightarrow> Inl e | Inr cl \<Rightarrow>
      case get_index cl 0 of Inl e \<Rightarrow> Inl e | Inr c0 \<Rightarrow>
        get_key c0 ''label'')"

text \<open>
  One \<open>try\<close> block of \<open>classify_hands\<close>, on the pair \<open>(left, right)\<close>; whatever is raised
  inside is swallowed by the bare \<open>except\<close> and the pair stays as it was.
\<close>

definition classify_slot ::
  "results \<Rightarrow> nat \<Rightarrow> landmark list option \<times> landmark list option
     \<Rightarrow> landmark list option \<times> landmark list option" where
  "classify_slot res i lr =
     (case handedness_label res i of Inl e \<Rightarrow> lr | Inr label \<Rightarrow>
      case opt_index (multi_hand_landmarks res) i of Inl e \<Rightarrow> lr | Inr h \<Rightarrow>
        if label = JStr ''Right'' then (fst lr, Some h) else (Some h, snd lr))"

definition classify_hands :: "results \<Rightarrow> GestureController \<Rightarrow> GestureController" where
  "classify_hands res gc =
     (let lr = classify_slot res 1 (classify_slot res 0 (None, None));
          left = fst lr; right = snd lr
      in if dom_hand gc then gc\<lparr>hr_major := right, hr_minor := left\<rparr>
         else gc\<lparr>hr_major := left, hr_minor := right\<rparr>)"

text \<open>
  The body of the frame loop (\<open>start_streamlit_mode\<close> in \<open>app.py\<close>, from the test of
  \<open>results.multi_hand_landmarks\<close> on), without the drawing.
\<close>

record session =
  gc :: GestureController
  handmajor :: HandRecog
  handminor :: HandRecog
  ctl :: Controller

definition session_init :: session where
  "session_init =
     \<lparr>gc = GestureController_init, handmajor = HandRecog_init MAJOR,
      handminor = HandRecog_init MINOR, ctl = Controller_init\<rparr>"

definition truthy :: "'a list option \<Rightarrow> bool" where
  "truthy xs = (case xs of None \<Rightarrow> False | Some ys \<Rightarrow> ys \<noteq> [])"

definition process_frame :: "os_env \<Rightarrow> results \<Rightarrow> session \<Rightarrow> py_error + action list \<times> session" where
  "process_frame env res s =
     (if truthy (multi_hand_landmarks res)
      then (let g1 = classify_hands res (gc s)
            in case set_finger_state (update_hand_result (hr_major g1) (handmajor s)) of
                 Inl e \<Rightarrow> Inl e
               | Inr hmaj \<Rightarrow>
              case set_finger_state (update_hand_result (hr_minor g1) (handminor s)) of
                 Inl e \<Rightarrow> Inl e
               | Inr hmin \<Rightarrow>
              case get_gesture hmin of Inl e \<Rightarrow> Inl e | Inr (gest_minor, hmin1) \<Rightarrow>
                if gest_minor = PINCH_MINOR
                then (case handle_controls env gest_minor (hand_result hmin1) (ctl s) of
                        Inl e \<Rightarrow> Inl e
                      | Inr (acts, c1) \<Rightarrow>
                          Inr (acts, \<lparr>gc = g1, handmajor = hmaj, handminor = hmin1, ctl = c1\<rparr>))
                else (case get_gesture hmaj of Inl e \<Rightarrow> Inl e | Inr (gest_major, hmaj1) \<Rightarrow>
                      case handle_controls env gest_major (hand_result hmaj1) (ctl s) of
                        Inl e \<Rightarrow> Inl e
                      | Inr (acts, c1) \<Rightarrow>
                          Inr (acts, \<lparr>gc = g1, handmajor = hmaj1, handminor = hmin1, ctl = c1\<rparr>)))
      else Inr ([], s\<lparr>ctl := (ctl s)\<lparr>prev_hand := None\<rparr>\<rparr>))"

fun run_frames ::
  "(os_env \<times> results) list \<Rightarrow> session \<Rightarrow> py_error + action list list \<times> session" where
  "run_frames [] s = Inr ([], s)"
| "run_frames (f # fs) s =
     (case process_frame (fst f) (snd f) s of Inl e \<Rightarrow> Inl e | Inr (acts, s1) \<Rightarrow>
      case run_frames fs s1 of Inl e \<Rightarrow> Inl e | Inr (as, s2) \<Rightarrow> Inr (acts # as, s2))"

section \<open>Derived notions and sample inputs\<close>

text \<open>
  The raw candidate of a frame: what \<open>set_finger_state\<close> followed by the first half of
  \<open>get_gesture\<close> computes for a landmark set; it depends on the recogniser only through
  its hand label.
\<close>

definition raw_gesture :: "int \<Rightarrow> landmark list \<Rightarrow> py_error + int" where
  "raw_gesture label h =
     (case set_finger_state ((HandRecog_init label)\<lparr>hand_result := Some h\<rparr>) of
        Inl e \<Rightarrow> Inl e | Inr st \<Rightarrow> current_gesture st h)"

text \<open>
  The three fields the debounce works on (settled gesture, previous raw gesture, run
  counter), and the debounce as a function on them.
\<close>

definition dview :: "HandRecog \<Rightarrow> int \<times> int \<times> nat" where
  "dview st = (ori_gesture st, prev_gesture st, frame_count st)"

definition dstep :: "int \<Rightarrow> int \<times> int \<times> nat \<Rightarrow> int \<times> int \<times> nat" where
  "dstep cur s =
     (case s of (ori, prev, n) \<Rightarrow>
        (let n' = (if cur = prev then n + 1 else 0)
         in (if 4 < n' then cur else ori, cur, n')))"

fun drun :: "int list \<Rightarrow> int \<times> int \<times> nat \<Rightarrow> int list \<times> (int \<times> int \<times> nat)" where
  "drun [] s = ([], s)"
| "drun (c # cs) s = (fst (dstep c s) # fst (drun cs (dstep c s)), snd (drun cs (dstep c s)))"

text \<open>
  All four ratios of \<open>set_finger_state\<close> are computed and exceed 0.5; the thumb tip is
  not within 0.05 of the index tip.
\<close>

definition all_ratios_gt :: "landmark list \<Rightarrow> bool" where
  "all_ratios_gt h =
     list_all (\<lambda>point. case finger_ratio h point of Inl e \<Rightarrow> False | Inr ratio \<Rightarrow> 0.5 < ratio)
       points"

definition thumb_apart :: "landmark list \<Rightarrow> bool" where
  "thumb_apart h = (case get_dist h (8, 4) of Inl e \<Rightarrow> False | Inr d \<Rightarrow> \<not> d < 0.05)"

definition lmk :: "real \<Rightarrow> real \<Rightarrow> real \<Rightarrow> landmark" where
  "lmk a b c = \<lparr>lm_x = a, lm_y = b, lm_z = c\<rparr>"

text \<open>
  Landmark sets of 21 points: wrist, thumb (1 to 4), index (5 to 8), middle (9 to 12),
  ring (13 to 16), pinky (17 to 20). Smaller \<open>y\<close> is higher in the frame.
\<close>

definition open_hand :: "landmark list" where
  "open_hand =
     [lmk 0.5 0.9 0,
      lmk 0.4 0.8 0, lmk 0.3 0.7 0, lmk 0.25 0.65 0, lmk 0.2 0.6 0,
      lmk 0.2 0.5 0, lmk 0.2 0.4 0, lmk 0.2 0.2 0, lmk 0.2 0.1 0,
      lmk 0.5 0.5 0, lmk 0.5 0.4 0, lmk 0.5 0.2 0, lmk 0.5 0.1 0,
      lmk 0.8 0.5 0, lmk 0.8 0.4 0, lmk 0.8 0.2 0, lmk 0.8 0.1 0,
      lmk 0.9 0.6 0, lmk 0.9 0.5 0, lmk 0.9 0.4 0, lmk 0.9 0.3 0]"

definition fist_hand :: "landmark list" where
  "fist_hand =
     [lmk 0.5 0.9 0,
      lmk 0.4 0.8 0, lmk 0.3 0.7 0, lmk 0.25 0.65 0, lmk 0.2 0.6 0,
      lmk 0.2 0.5 0, lmk 0.2 0.45 0, lmk 0.2 0.55 0, lmk 0.2 0.6 0,
      lmk 0.5 0.5 0, lmk 0.5 0.45 0, lmk 0.5 0.55 0, lmk 0.5 0.6 0,
      lmk 0.8 0.5 0, lmk 0.8 0.45 0, lmk 0.8 0.55 0, lmk 0.8 0.6 0,
      lmk 0.9 0.6 0, lmk 0.9 0.55 0, lmk 0.9 0.65 0, lmk 0.9 0.7 0]"



text \<open>
  An open hand pointing at the camera: the index knuckle (5) is straight in front of the
  wrist (0), so both have the same \<open>x\<close> and \<open>y\<close>.
\<close>

definition pointing_hand :: "landmark list" where
  "pointing_hand =
     [lmk 0.5 0.9 0,
      lmk 0.4 0.8 0, lmk 0.3 0.7 0, lmk 0.25 0.65 0, lmk 0.2 0.6 0,
      lmk 0.5 0.9 (- 0.1), lmk 0.5 0.8 (- 0.15), lmk 0.5 0.7 (- 0.2), lmk 0.5 0.6 (- 0.25),
      lmk 0.5 0.5 0, lmk 0.5 0.4 0, lmk 0.5 0.2 0, lmk 0.5 0.1 0,
      lmk 0.8 0.5 0, lmk 0.8 0.4 0, lmk 0.8 0.2 0, lmk 0.8 0.1 0,
      lmk 0.9 0.6 0, lmk 0.9 0.5 0, lmk 0.9 0.4 0, lmk 0.9 0.3 0]"

text \<open>A screen of 1000 by 1000 pixels with the cursor at \<open>(300, 300)\<close>.\<close>

definition env0 :: os_env where
  "env0 = \<lparr>screen_size = (1000, 1000), cursor_position = (300, 300)\<rparr>"

text \<open>
  The handedness message of one detection as \<open>MessageToDict\<close> renders it, and the
  \<open>results\<close> of a frame with a single detection.
\<close>

definition handedness :: "real \<Rightarrow> string \<Rightarrow> payload" where
  "handedness score label =
     Message (JDict [(''classification'',
       JList [JDict [(''index'', JNum 0), (''score'', JNum score), (''label'', JStr label)]])])"

definition one_hand :: "payload \<Rightarrow> landmark list \<Rightarrow> results" where
  "one_hand m h = \<lparr>multi_hand_landmarks = Some [h], multi_handedness = Some [m]\<rparr>"







text \<open>
  The hands \<open>classify_hands\<close> makes the major and the minor one, given \<open>dom_hand\<close>. A
  fist frame has a hand to process, no minor hand, and a major hand whose raw gesture is
  \<open>FIST\<close>.
\<close>

definition major_hand :: "bool \<Rightarrow> results \<Rightarrow> landmark list option" where
  "major_hand dominant res =
     (let lr = classify_slot res 1 (classify_slot res 0 (None, None))
      in if dominant then snd lr else fst lr)"

definition minor_hand :: "bool \<Rightarrow> results \<Rightarrow> landmark list option" where
  "minor_hand dominant res =
     (let lr = classify_slot res 1 (classify_slot res 0 (None, None))
      in if dominant then fst lr else snd lr)"

definition fist_frame :: "bool \<Rightarrow> results \<Rightarrow> bool" where
  "fist_frame dominant res =
     (truthy (multi_hand_landmarks res) \<and> minor_hand dominant res = None \<and>
      (case major_hand dominant res of None \<Rightarrow> False | Some h \<Rightarrow> raw_gesture MAJOR h = Inr FIST))"

text \<open>The debounce fields of the major recogniser after \<open>j\<close> fist frames in a row.\<close>

definition fist_state :: "nat \<Rightarrow> int \<times> int \<times> nat" where
  "fist_state j = (if j = 0 then (PALM, PALM, 0) else (if 5 < j then FIST else PALM, FIST, j - 1))"

text \<open>One detection, labelled \<open>Right\<close>, of \<open>fist_hand\<close>.\<close>

definition fist_results :: results where
  "fist_results = one_hand (handedness 0.98 ''Right'') fist_hand"

section \<open>Properties of the recogniser\<close>

lemmas Gest_defs = FIST_def PINKY_def RING_def MID_def LAST3_def INDEX_def FIRST2_def
  LAST4_def THUMB_def PALM_def V_GEST_def TWO_FINGER_CLOSED_def PINCH_MAJOR_def
  PINCH_MINOR_def MINOR_def MAJOR_def

lemmas eval_defs = landmark_at_def get_signed_dist_def get_dist_def get_dz_def
  finger_ratio_def points_def py_round1_def round_half_even_def Let_def

lemma lmk_sel [simp]: "lm_x (lmk a b c) = a" "lm_y (lmk a b c) = b" "lm_z (lmk a b c) = c"
  by (simp_all add: lmk_def)

lemma sqrt_345:
  "sqrt ((3 / 10)\<^sup>2 + (2 / 5)\<^sup>2) = 1 / 2" "sqrt ((2 / 5)\<^sup>2 + (3 / 10)\<^sup>2) = 1 / 2"
  by (rule real_sqrt_unique; simp add: power2_eq_square)+

subsection \<open>Sample hands\<close>

lemma finger_open_hand: "finger_loop open_hand points 0 = Inr LAST4"
  by (simp add: eval_defs open_hand_def sqrt_345 LAST4_def)

lemma finger_fist_hand: "finger_loop fist_hand points 0 = Inr FIST"
  by (simp add: eval_defs fist_hand_def sqrt_345 FIST_def)



lemma raw_open_hand: "raw_gesture l open_hand = Inr LAST4"
  by (simp add: raw_gesture_def set_finger_state_def HandRecog_init_def finger_open_hand
      current_gesture_def pinch_test_def)
    (simp add: get_dist_def landmark_at_def open_hand_def Gest_defs)

lemma raw_fist_hand: "raw_gesture l fist_hand = Inr FIST"
  by (simp add: raw_gesture_def set_finger_state_def HandRecog_init_def finger_fist_hand
      current_gesture_def pinch_test_def Gest_defs)

subsection \<open>A frame without a hand\<close>

text \<open>
  C9. Whatever the state of the recogniser, \<open>get_gesture\<close> on a \<open>hand_result\<close> that is
  \<open>None\<close> returns \<open>PALM\<close> and returns the state as it was, the settled gesture, the
  previous raw gesture and the run counter included. So does the whole frame
  (\<open>update_hand_result\<close>, \<open>set_finger_state\<close>, \<open>get_gesture\<close>), and every later frame
  is processed as if the empty frame had not been there.
\<close>

theorem get_gesture_null_frame:
  "get_gesture (st\<lparr>hand_result := None\<rparr>) = Inr (PALM, st\<lparr>hand_result := None\<rparr>) \<and>
   recog_frame None st = Inr (PALM, st\<lparr>hand_result := None\<rparr>) \<and>
   dview (st\<lparr>hand_result := None\<rparr>) = dview st \<and>
   recog_frame r (st\<lparr>hand_result := None\<rparr>) = recog_frame r st"
  by (simp add: get_gesture_def recog_frame_def update_hand_result_def set_finger_state_def
      dview_def)

subsection \<open>A zero denominator in the finger ratio\<close>

lemma finger_ratio_zero_denominator:
  assumes "get_signed_dist h (a, b) = Inr d" and "get_signed_dist h (b, c) = Inr 0"
  shows "finger_ratio h (a, b, c) = Inl (NameError ''dist1'')"
  using assms by (simp add: finger_ratio_def)

text \<open>
  C3. On \<open>pointing_hand\<close> the distance between index knuckle and wrist, the denominator of
  the first ratio, is 0. The division raises inside the \<open>try\<close>, the handler reads the
  unbound name \<open>dist1\<close>, and \<open>set_finger_state\<close> ends with \<open>NameError\<close>: no ratio is
  clamped and no finger state is produced.
\<close>

theorem set_finger_state_zero_denominator:
  "get_signed_dist pointing_hand (5, 0) = Inr 0 \<and>
   set_finger_state ((HandRecog_init MAJOR)\<lparr>hand_result := Some pointing_hand\<rparr>)
     = Inl (NameError ''dist1'') \<and>
   recog_frame (Some pointing_hand) (HandRecog_init MAJOR) = Inl (NameError ''dist1'')"
proof -
  have d2: "get_signed_dist pointing_hand (5, 0) = Inr 0"
    by (simp add: get_signed_dist_def landmark_at_def pointing_hand_def)
  have d1: "get_signed_dist pointing_hand (8, 5) = Inr (3 / 10)"
    by (simp add: get_signed_dist_def landmark_at_def pointing_hand_def)
  have "finger_ratio pointing_hand (8, 5, 0) = Inl (NameError ''dist1'')"
    using d1 d2 by (rule finger_ratio_zero_denominator)
  then have "finger_loop pointing_hand points 0 = Inl (NameError ''dist1'')"
    by (simp add: points_def)
  then show ?thesis
    using d2 by (simp add: set_finger_state_def recog_frame_def update_hand_result_def
        HandRecog_init_def)
qed

subsection \<open>Index and middle finger extended\<close>




subsection \<open>The debounce on its three fields\<close>

lemma current_gesture_cong:
  "finger st = finger st' \<Longrightarrow> hand_label st = hand_label st' \<Longrightarrow>
   current_gesture st h = current_gesture st' h"
  by (auto simp: current_gesture_def pinch_test_def split: sum.splits)

lemma debounce_dview:
  "dview (snd (debounce cur st)) = dstep cur (dview st)"
  "fst (debounce cur st) = fst (dstep cur (dview st))"
  "hand_label (snd (debounce cur st)) = hand_label st"
  "hand_result (snd (debounce cur st)) = hand_result st"
  by (simp_all add: debounce_def dview_def dstep_def Let_def)

lemma recog_frame_raw:
  assumes "raw_gesture (hand_label st) h = Inr cur"
  shows "\<exists>st'. recog_frame (Some h) st = Inr (fst (dstep cur (dview st)), st') \<and>
           dview st' = dstep cur (dview st) \<and> hand_label st' = hand_label st \<and>
           hand_result st' = Some h"
proof -
  from assms obtain f where f: "finger_loop h points 0 = Inr f"
    by (auto simp: raw_gesture_def set_finger_state_def HandRecog_init_def split: sum.splits)
  let ?s0 = "(HandRecog_init (hand_label st))\<lparr>hand_result := Some h, finger := f\<rparr>"
  let ?s1 = "st\<lparr>hand_result := Some h, finger := f\<rparr>"
  from assms f have "current_gesture ?s0 h = Inr cur"
    by (simp add: raw_gesture_def set_finger_state_def)
  moreover have "current_gesture ?s1 h = current_gesture ?s0 h"
    by (rule current_gesture_cong) (simp_all add: HandRecog_init_def)
  ultimately have c: "current_gesture ?s1 h = Inr cur" by simp
  have r: "recog_frame (Some h) st = Inr (debounce cur ?s1)"
    using f c by (simp add: recog_frame_def update_hand_result_def set_finger_state_def get_gesture_def)
  have v: "dview ?s1 = dview st" by (simp add: dview_def)
  obtain g st' where d: "debounce cur ?s1 = (g, st')" by (cases "debounce cur ?s1")
  from debounce_dview [of cur ?s1] d v
  have "g = fst (dstep cur (dview st))" "dview st' = dstep cur (dview st)"
    "hand_label st' = hand_label st" "hand_result st' = Some h"
    by simp_all
  with r d show ?thesis by auto
qed

lemma feed_drun:
  assumes "list_all2 (\<lambda>h c. raw_gesture l h = Inr c) hs cs" and "hand_label st = l"
  shows "\<exists>st'. feed (map Some hs) st = Inr (fst (drun cs (dview st)), st') \<and>
           dview st' = snd (drun cs (dview st)) \<and> hand_label st' = l"
  using assms
proof (induction hs cs arbitrary: st rule: list_all2_induct)
  case Nil
  then show ?case by simp
next
  case (Cons h hs c cs)
  from Cons.hyps(1) Cons.prems have "raw_gesture (hand_label st) h = Inr c"
    by simp
  from recog_frame_raw [OF this] Cons.prems obtain st1 where
    s1: "recog_frame (Some h) st = Inr (fst (dstep c (dview st)), st1)"
      "dview st1 = dstep c (dview st)" "hand_label st1 = l"
    by auto
  from Cons.IH [OF s1(3)] obtain st2 where
    s2: "feed (map Some hs) st1 = Inr (fst (drun cs (dview st1)), st2)"
      "dview st2 = snd (drun cs (dview st1))" "hand_label st2 = l"
    by auto
  show ?case
    using s1 s2 by (intro exI [of _ st2]) simp
qed

lemma drun_length [simp]: "length (fst (drun cs s)) = length cs"
  by (induction cs arbitrary: s) simp_all

lemma drun_append:
  "drun (cs @ ds) s =
     (fst (drun cs s) @ fst (drun ds (snd (drun cs s))), snd (drun ds (snd (drun cs s))))"
  by (induction cs arbitrary: s) simp_all

text \<open>A run of one raw gesture, in closed form.\<close>

lemma drun_replicate:
  "drun (replicate n A) (ori, prev, c) =
     (map (\<lambda>i. if 4 < (if A = prev then c + 1 else 0) + i then A else ori) [0..<n],
      if n = 0 then (ori, prev, c)
      else (if 4 < (if A = prev then c + 1 else 0) + (n - 1) then A else ori, A,
            (if A = prev then c + 1 else 0) + (n - 1)))"
proof (induction n arbitrary: ori prev c)
  case 0
  then show ?case by simp
next
  case (Suc n)
  let ?n0 = "if A = prev then c + 1 else 0"
  have step: "dstep A (ori, prev, c) = (if 4 < ?n0 then A else ori, A, ?n0)"
    by (simp add: dstep_def Let_def)
  have upt: "[0..<Suc n] = 0 # map Suc [0..<n]"
    by (simp add: upt_conv_Cons map_Suc_upt del: upt_Suc)
  show ?case
    unfolding replicate_Suc drun.simps step Suc.IH upt
    by (cases n) (auto simp: o_def)
qed



lemma finger_loop_bound:
  assumes "finger_loop h ps f = Inr f'" and "0 \<le> f"
  shows "0 \<le> f' \<and> f' < (f + 1) * 2 ^ length ps"
  using assms
proof (induction ps arbitrary: f)
  case Nil
  then show ?case by simp
next
  case (Cons p ps)
  from Cons.prems(1) obtain ratio where r: "finger_ratio h p = Inr ratio"
    by (cases "finger_ratio h p") simp_all
  define f2 where "f2 = (if 0.5 < ratio then push_bit 1 f OR 1 else push_bit 1 f)"
  have l: "finger_loop h ps f2 = Inr f'"
    using Cons.prems(1) r by (auto simp: Let_def f2_def split: if_splits)
  have e: "push_bit 1 f OR 1 = 2 * f + 1" "f * 2 OR 1 = 2 * f + 1"
    by (simp_all add: or_one_eq)
  have f2: "0 \<le> f2" "f2 + 1 \<le> 2 * (f + 1)"
    using Cons.prems(2) by (simp_all add: f2_def e)
  from Cons.IH [OF l f2(1)] have lo: "0 \<le> f'" and "f' < (f2 + 1) * 2 ^ length ps"
    by simp_all
  note this(2)
  also have "(f2 + 1) * 2 ^ length ps \<le> (2 * (f + 1)) * 2 ^ length ps"
    using f2(2) by (intro mult_right_mono) simp_all
  also have "\<dots> = (f + 1) * 2 ^ length (p # ps)"
    by simp
  finally show ?case
    using lo by simp
qed

lemma raw_gesture_not_PALM:
  assumes "raw_gesture l h = Inr c"
  shows "c \<noteq> PALM"
proof -
  from assms obtain f where f: "finger_loop h points 0 = Inr f"
    by (auto simp: raw_gesture_def set_finger_state_def HandRecog_init_def split: sum.splits)
  from finger_loop_bound [OF f] have "f < 16" by (simp add: points_def)
  with assms f show ?thesis
    by (auto simp: raw_gesture_def set_finger_state_def HandRecog_init_def current_gesture_def
        first2_gesture_def Gest_defs split: sum.splits if_splits)
qed

subsection \<open>All four fingers extended\<close>

lemma finger_loop_all_gt:
  assumes "all_ratios_gt h"
  shows "finger_loop h points 0 = Inr LAST4"
  using assms
  by (auto simp: all_ratios_gt_def points_def Let_def LAST4_def split: sum.splits)

lemma raw_all_gt:
  assumes "all_ratios_gt h" and "thumb_apart h"
  shows "raw_gesture l h = Inr LAST4"
  using assms(2)
  by (auto simp: raw_gesture_def set_finger_state_def HandRecog_init_def
      finger_loop_all_gt [OF assms(1)] current_gesture_def pinch_test_def thumb_apart_def
      Gest_defs split: sum.splits)

lemma recog_frame_exact:
  assumes "finger_loop h points 0 = Inr f" and "raw_gesture (hand_label st) h = Inr cur"
  shows "recog_frame (Some h) st = Inr (debounce cur (st\<lparr>hand_result := Some h, finger := f\<rparr>))"
proof -
  let ?s0 = "(HandRecog_init (hand_label st))\<lparr>hand_result := Some h, finger := f\<rparr>"
  let ?s1 = "st\<lparr>hand_result := Some h, finger := f\<rparr>"
  from assms have "current_gesture ?s0 h = Inr cur"
    by (simp add: raw_gesture_def set_finger_state_def)
  moreover have "current_gesture ?s1 h = current_gesture ?s0 h"
    by (rule current_gesture_cong) (simp_all add: HandRecog_init_def)
  ultimately have c: "current_gesture ?s1 h = Inr cur" by simp
  show ?thesis
    using assms(1) c
    by (simp add: recog_frame_def update_hand_result_def set_finger_state_def get_gesture_def)
qed

lemma feed_replicate_raw:
  assumes "\<forall>h \<in> set hs. raw_gesture l h = Inr A" and "hand_label st = l"
  shows "\<exists>st'. feed (map Some hs) st = Inr (fst (drun (replicate (length hs) A) (dview st)), st') \<and>
           dview st' = snd (drun (replicate (length hs) A) (dview st)) \<and> hand_label st' = l"
proof -
  have "list_all2 (\<lambda>h c. raw_gesture l h = Inr c) hs (replicate (length hs) A)"
    using assms(1) by (simp add: list_all2_conv_all_nth)
  from feed_drun [OF this assms(2)] show ?thesis .
qed

text \<open>
  C1, as the code has it. The thumb bit is the constant 0, so four ratios above 0.5 give
  the finger state 15 (\<open>LAST4\<close>), not 31. With the thumb tip at least 0.05 away from the
  index tip on every frame the raw candidate is \<open>LAST4\<close>, and from any state the
  gesture returned is \<open>LAST4\<close> from the sixth frame on.
\<close>

theorem all_extended_settles_LAST4:
  assumes "\<forall>h \<in> set hs. all_ratios_gt h \<and> thumb_apart h" and "6 \<le> length hs"
  shows "\<exists>gs st'. feed (map Some hs) st = Inr (gs, st') \<and> length gs = length hs \<and>
           (\<forall>h \<in> set hs. finger_loop h points (0 OR 0) = Inr LAST4) \<and>
           (\<forall>n. 5 \<le> n \<and> n < length hs \<longrightarrow> gs ! n = LAST4) \<and>
           ori_gesture st' = LAST4 \<and> LAST4 \<noteq> PALM"
proof -
  obtain ori prev c where v: "dview st = (ori, prev, c)"
    by (cases "dview st")
  have raw: "\<forall>h \<in> set hs. raw_gesture (hand_label st) h = Inr LAST4"
    using assms(1) by (simp add: raw_all_gt)
  from feed_replicate_raw [OF raw refl] obtain st' where
    f: "feed (map Some hs) st = Inr (fst (drun (replicate (length hs) LAST4) (dview st)), st')"
    and d: "dview st' = snd (drun (replicate (length hs) LAST4) (dview st))"
    by auto
  let ?gs = "fst (drun (replicate (length hs) LAST4) (dview st))"
  have n: "\<forall>n. 5 \<le> n \<and> n < length hs \<longrightarrow> ?gs ! n = LAST4"
    by (simp add: v drun_replicate)
  have "fst (dview st') = LAST4"
    using assms(2) by (auto simp: d v drun_replicate)
  then have o: "ori_gesture st' = LAST4"
    by (simp add: dview_def)
  have fl: "\<forall>h \<in> set hs. finger_loop h points (0 OR 0) = Inr LAST4"
    using assms(1) by (simp add: finger_loop_all_gt)
  show ?thesis
    using f n o fl by (intro exI [of _ ?gs] exI [of _ st']) (simp add: Gest_defs)
qed

lemma recog_frame_ok:
  assumes "recog_frame (Some h) st = Inr (g, st')"
  shows "\<exists>cur. raw_gesture (hand_label st) h = Inr cur"
proof -
  from assms obtain f where f: "finger_loop h points 0 = Inr f"
    by (auto simp: recog_frame_def update_hand_result_def set_finger_state_def
        split: sum.splits)
  let ?s0 = "(HandRecog_init (hand_label st))\<lparr>hand_result := Some h, finger := f\<rparr>"
  let ?s1 = "st\<lparr>hand_result := Some h, finger := f\<rparr>"
  from assms f obtain cur where "current_gesture ?s1 h = Inr cur"
    by (auto simp: recog_frame_def update_hand_result_def set_finger_state_def
        get_gesture_def split: sum.splits)
  moreover have "current_gesture ?s1 h = current_gesture ?s0 h"
    by (rule current_gesture_cong) (simp_all add: HandRecog_init_def)
  ultimately have "raw_gesture (hand_label st) h = Inr cur"
    using f by (simp add: raw_gesture_def set_finger_state_def)
  then show ?thesis ..
qed

lemma feed_ok_raw:
  assumes "feed (map Some hs) st = Inr (gs, st')" and "hand_label st = l"
  shows "\<exists>cs. list_all2 (\<lambda>h c. raw_gesture l h = Inr c) hs cs"
  using assms
proof (induction hs arbitrary: st gs)
  case Nil
  then show ?case by simp
next
  case (Cons h hs)
  from Cons.prems(1) obtain g st1 gs1 where
    r: "recog_frame (Some h) st = Inr (g, st1)" and f: "feed (map Some hs) st1 = Inr (gs1, st')"
    by (auto split: sum.splits)
  from recog_frame_ok [OF r] Cons.prems(2) obtain cur where c: "raw_gesture l h = Inr cur"
    by auto
  with Cons.prems(2) have "raw_gesture (hand_label st) h = Inr cur" by simp
  from recog_frame_raw [OF this] r Cons.prems(2) have "hand_label st1 = l"
    by auto
  from Cons.IH [OF f this] obtain cs where "list_all2 (\<lambda>h c. raw_gesture l h = Inr c) hs cs"
    by auto
  with c have "list_all2 (\<lambda>h c. raw_gesture l h = Inr c) (h # hs) (cur # cs)"
    by simp
  then show ?case ..
qed

lemma all_ratios_open_hand: "all_ratios_gt open_hand"
  by (simp add: all_ratios_gt_def eval_defs open_hand_def sqrt_345)

lemma thumb_apart_open_hand: "thumb_apart open_hand"
  by (simp add: thumb_apart_def get_dist_def landmark_at_def open_hand_def)

theorem all_extended_settles_LAST4_witness:
  "all_ratios_gt open_hand \<and> thumb_apart open_hand \<and>
   (\<exists>gs st'. feed (map Some (replicate 6 open_hand)) (HandRecog_init MAJOR) = Inr (gs, st') \<and>
      gs ! 5 = LAST4 \<and> ori_gesture st' = LAST4)"
proof -
  have h: "\<forall>h \<in> set (replicate 6 open_hand). all_ratios_gt h \<and> thumb_apart h"
    by (simp add: all_ratios_open_hand thumb_apart_open_hand)
  have l: "6 \<le> length (replicate 6 open_hand)" by simp
  from all_extended_settles_LAST4 [OF h l, of "HandRecog_init MAJOR"]
  show ?thesis
    using all_ratios_open_hand thumb_apart_open_hand by auto
qed

lemma recog_open_hand:
  "recog_frame (Some open_hand) st =
     Inr (debounce LAST4 (st\<lparr>hand_result := Some open_hand, finger := LAST4\<rparr>))"
  by (rule recog_frame_exact [OF finger_open_hand raw_open_hand])

lemma recog_fist_hand:
  "recog_frame (Some fist_hand) st =
     Inr (debounce FIST (st\<lparr>hand_result := Some fist_hand, finger := FIST\<rparr>))"
  by (rule recog_frame_exact [OF finger_fist_hand raw_fist_hand])

lemma debounce_rec:
  "debounce cur \<lparr>finger = f, ori_gesture = ori, prev_gesture = p, frame_count = n,
                 hand_result = r, hand_label = l\<rparr> =
     ((if 4 < (if cur = p then n + 1 else 0) then cur else ori),
      \<lparr>finger = f, ori_gesture = (if 4 < (if cur = p then n + 1 else 0) then cur else ori),
       prev_gesture = cur, frame_count = (if cur = p then n + 1 else 0),
       hand_result = r, hand_label = l\<rparr>)"
  by (simp add: debounce_def Let_def)


text \<open>
  On a stream of \<open>open_hand\<close> frames \<open>PALM\<close> is returned only while the initial value of
  the settled gesture is still there; the stream settles to \<open>LAST4\<close>, and after a fist
  \<open>PALM\<close> is not returned at all.
\<close>

theorem all_extended_never_PALM:
  "all_ratios_gt open_hand \<and>
   feed [Some open_hand, Some open_hand, Some open_hand, Some open_hand, Some open_hand,
         Some open_hand, Some open_hand, Some open_hand] (HandRecog_init MAJOR)
     = Inr ([PALM, PALM, PALM, PALM, PALM, LAST4, LAST4, LAST4],
            \<lparr>finger = LAST4, ori_gesture = LAST4, prev_gesture = LAST4, frame_count = 7,
             hand_result = Some open_hand, hand_label = MAJOR\<rparr>) \<and>
   feed [Some open_hand, Some open_hand, Some open_hand, Some open_hand, Some open_hand,
         Some open_hand, Some open_hand, Some open_hand]
        \<lparr>finger = FIST, ori_gesture = FIST, prev_gesture = FIST, frame_count = 5,
         hand_result = Some fist_hand, hand_label = MAJOR\<rparr>
     = Inr ([FIST, FIST, FIST, FIST, FIST, LAST4, LAST4, LAST4],
            \<lparr>finger = LAST4, ori_gesture = LAST4, prev_gesture = LAST4, frame_count = 7,
             hand_result = Some open_hand, hand_label = MAJOR\<rparr>) \<and>
   LAST4 \<noteq> PALM"
  by (simp add: all_ratios_open_hand recog_open_hand debounce_rec HandRecog_init_def)
    (simp add: Gest_defs)

subsection \<open>Runs and interruptions\<close>

lemma map_upt_const:
  assumes "\<And>i. i < n \<Longrightarrow> f i = a"
  shows "map f [0..<n] = replicate n a"
  using assms by (induction n) (simp_all add: replicate_append_same)

lemma drun_interrupted:
  assumes "B \<noteq> A" and "k \<le> 5" and "c = 0 \<or> p \<noteq> A \<or> ori = A"
  shows "drun (replicate 4 A @ [B] @ replicate k A) (ori, p, c) =
           (replicate (4 + 1 + k) ori,
            if k = 0 then (ori, B, 0) else (ori, A, k - 1))"
proof -
  let ?n0 = "if A = p then c + 1 else 0"
  have a: "map (\<lambda>i. if 4 < ?n0 + i then A else ori) [0..<4] = replicate 4 ori"
    using assms(3) by (intro map_upt_const) auto
  have s4: "drun (replicate 4 A) (ori, p, c) =
      (replicate 4 ori, (if 4 < ?n0 + 3 then A else ori, A, ?n0 + 3))"
    unfolding drun_replicate a by simp
  have o4: "(if 4 < ?n0 + 3 then A else ori) = ori"
    using assms(3) by auto
  have sb: "dstep B (ori, A, ?n0 + 3) = (ori, B, 0)"
    using assms(1) by (simp add: dstep_def)
  have b: "map (\<lambda>i. if 4 < (if A = B then 0 + 1 else 0) + i then A else ori) [0..<k]
      = replicate k ori"
    using assms(1,2) by (intro map_upt_const) auto
  have sk: "drun (replicate k A) (ori, B, 0) =
      (replicate k ori, if k = 0 then (ori, B, 0) else (ori, A, k - 1))"
    unfolding drun_replicate b using assms(1,2) by auto
  have r: "replicate 4 ori @ ori # replicate k ori = replicate (4 + 1 + k) ori"
    by (simp add: numeral_eq_Suc)
  show ?thesis
    unfolding drun_append s4 fst_conv snd_conv o4
    by (simp add: sb sk r del: replicate_add)
qed

lemma drun_snoc:
  "drun (cs @ [c]) s = (fst (drun cs s) @ [fst (dstep c (snd (drun cs s)))],
                        dstep c (snd (drun cs s)))"
  by (simp add: drun_append)

lemma drun_run_counter:
  assumes "PALM \<notin> set cs" and "cs \<noteq> []" and "snd (drun cs (PALM, PALM, 0)) = (ori, p, c)"
  shows "p = last cs \<and> c < length cs \<and> (\<forall>i\<le>c. cs ! (length cs - 1 - i) = p)"
  using assms
proof (induction cs arbitrary: ori p c rule: rev_induct)
  case Nil
  then show ?case by simp
next
  case (snoc x xs)
  show ?case
  proof (cases "xs = []")
    case True
    with snoc.prems show ?thesis
      by (auto simp: dstep_def)
  next
    case False
    obtain o' p' c' where s: "snd (drun xs (PALM, PALM, 0)) = (o', p', c')"
      by (cases "snd (drun xs (PALM, PALM, 0))")
    from snoc.prems(1) have "PALM \<notin> set xs" by simp
    from snoc.IH [OF this False s]
    have ih: "p' = last xs" "c' < length xs" "\<forall>i\<le>c'. xs ! (length xs - 1 - i) = p'"
      by simp_all
    from snoc.prems(3) s have d: "dstep x (o', p', c') = (ori, p, c)"
      by (simp add: drun_snoc)
    show ?thesis
    proof (cases "x = p'")
      case True
      with d have pc: "p = x" "c = c' + 1"
        by (auto simp: dstep_def Let_def)
      have "(xs @ [x]) ! (length (xs @ [x]) - 1 - i) = p" if "i \<le> c" for i
      proof (cases i)
        case 0
        then show ?thesis using pc by simp
      next
        case (Suc j)
        with that pc have j: "j \<le> c'" by simp
        with ih(2) have lt: "length xs - 1 - j < length xs" by simp
        have "length (xs @ [x]) - 1 - i = length xs - 1 - j"
          using Suc by simp
        then show ?thesis
          using ih(3) j lt True pc by (simp add: nth_append)
      qed
      then show ?thesis
        using pc ih(2) by simp
    next
      case False
      with d have "p = x" "c = 0"
        by (auto simp: dstep_def Let_def)
      then show ?thesis by simp
    qed
  qed
qed

lemma drun_take: "fst (drun (take n cs) s) = take n (fst (drun cs s))"
  by (induction cs arbitrary: n s) (simp_all add: take_Cons split: nat.splits)

lemma drun_nth:
  "n < length cs \<Longrightarrow> fst (drun cs s) ! n = fst (dstep (cs ! n) (snd (drun (take n cs) s)))"
  by (induction cs arbitrary: n s) (simp_all add: nth_Cons take_Cons split: nat.splits)

lemma drun_last: "cs \<noteq> [] \<Longrightarrow> last (fst (drun cs s)) = fst (snd (drun cs s))"
proof (induction cs arbitrary: s)
  case Nil
  then show ?case by simp
next
  case (Cons c cs)
  then show ?case
    by (cases cs) simp_all
qed

lemma drun_change:
  assumes "PALM \<notin> set cs" and "n < length cs"
    and "fst (drun cs (PALM, PALM, 0)) ! n
           \<noteq> (if n = 0 then PALM else fst (drun cs (PALM, PALM, 0)) ! (n - 1))"
  shows "5 \<le> n \<and> (\<forall>i\<le>5. cs ! (n - i) = fst (drun cs (PALM, PALM, 0)) ! n)"
proof -
  let ?s0 = "(PALM, PALM, 0 :: nat)"
  let ?gs = "fst (drun cs ?s0)"
  obtain ori p c where s: "snd (drun (take n cs) ?s0) = (ori, p, c)"
    by (cases "snd (drun (take n cs) ?s0)")
  have g: "?gs ! n = fst (dstep (cs ! n) (ori, p, c))"
    using drun_nth [OF assms(2), of ?s0] s by simp
  have old: "(if n = 0 then PALM else ?gs ! (n - 1)) = ori"
  proof (cases n)
    case 0
    with s show ?thesis by simp
  next
    case (Suc m)
    with assms(2) have ne: "take n cs \<noteq> []" by auto
    have len: "length (take n ?gs) = n"
      using assms(2) by simp
    moreover from len Suc have "take n ?gs \<noteq> []"
      by (metis list.size(3) nat.distinct(1))
    ultimately have "last (take n ?gs) = take n ?gs ! (n - 1)"
      by (simp add: last_conv_nth)
    then have "?gs ! (n - 1) = last (take n ?gs)"
      using Suc by simp
    also have "\<dots> = fst (snd (drun (take n cs) ?s0))"
      using drun_last [OF ne, of ?s0] by (simp add: drun_take)
    finally show ?thesis
      using s Suc by simp
  qed
  from assms(3) g old have ch: "fst (dstep (cs ! n) (ori, p, c)) \<noteq> ori"
    by simp
  then have c4: "cs ! n = p" "4 \<le> c" and gn: "?gs ! n = cs ! n"
    using g by (auto simp: dstep_def Let_def split: if_splits)
  have n0: "n \<noteq> 0"
    using s c4(2) by (cases n) auto
  with assms(2) have ne: "take n cs \<noteq> []" by auto
  have "PALM \<notin> set (take n cs)"
    using assms(1) by (meson in_set_takeD)
  from drun_run_counter [OF this ne s]
  have inv: "c < length (take n cs)" "\<forall>i\<le>c. take n cs ! (length (take n cs) - 1 - i) = p"
    by simp_all
  have len: "length (take n cs) = n"
    using assms(2) by simp
  from inv(1) len c4(2) have n5: "5 \<le> n" by simp
  have "cs ! (n - i) = ?gs ! n" if "i \<le> 5" for i
  proof (cases i)
    case 0
    then show ?thesis using gn by simp
  next
    case (Suc j)
    with that c4(2) have j: "j \<le> c" by simp
    have "take n cs ! (n - 1 - j) = p"
      using inv(2) j len by simp
    moreover have "n - 1 - j < n" using n0 by simp
    ultimately have "cs ! (n - 1 - j) = p" by simp
    then show ?thesis
      using Suc gn c4(1) by simp
  qed
  with n5 show ?thesis by simp
qed

lemma interrupted_run:
  assumes len: "length as = 4"
    and ra: "\<forall>h \<in> set as. raw_gesture (hand_label st) h = Inr A"
    and rb: "raw_gesture (hand_label st) b = Inr B"
    and ne: "B \<noteq> A"
    and len': "length as' \<le> 5"
    and ra': "\<forall>h \<in> set as'. raw_gesture (hand_label st) h = Inr A"
    and pre: "frame_count st = 0 \<or> prev_gesture st \<noteq> A \<or> ori_gesture st = A"
  shows "\<exists>st'. feed (map Some (as @ [b] @ as')) st
                  = Inr (replicate (4 + 1 + length as') (ori_gesture st), st') \<and>
               ori_gesture st' = ori_gesture st \<and> frame_count st' < 5"
proof -
  let ?cs = "replicate 4 A @ [B] @ replicate (length as') A"
  have "list_all2 (\<lambda>h c. raw_gesture (hand_label st) h = Inr c) as (replicate 4 A)"
    using len ra by (simp add: list_all2_conv_all_nth)
  moreover have "list_all2 (\<lambda>h c. raw_gesture (hand_label st) h = Inr c) [b] [B]"
    using rb by simp
  moreover have "list_all2 (\<lambda>h c. raw_gesture (hand_label st) h = Inr c) as'
      (replicate (length as') A)"
    using ra' by (simp add: list_all2_conv_all_nth)
  ultimately have "list_all2 (\<lambda>h c. raw_gesture (hand_label st) h = Inr c)
      (as @ [b] @ as') ?cs"
    by (intro list_all2_appendI)
  from feed_drun [OF this refl] obtain st' where
    f: "feed (map Some (as @ [b] @ as')) st = Inr (fst (drun ?cs (dview st)), st')"
    and d: "dview st' = snd (drun ?cs (dview st))"
    by auto
  have v: "dview st = (ori_gesture st, prev_gesture st, frame_count st)"
    by (simp add: dview_def)
  have pre': "frame_count st = 0 \<or> prev_gesture st \<noteq> A \<or> ori_gesture st = A"
    using pre .
  note r = drun_interrupted [OF ne len' pre', folded v]
  from d r have "ori_gesture st' = ori_gesture st" "frame_count st' < 5"
    using len' by (auto simp: dview_def split: if_splits)
  with f r show ?thesis
    by auto
qed

lemma settled_change:
  assumes f: "feed (map Some hs) (HandRecog_init l) = Inr (gs, st2)"
    and n: "n < length hs"
    and ch: "gs ! n \<noteq> (if n = 0 then PALM else gs ! (n - 1))"
  shows "5 \<le> n \<and> (\<forall>i\<le>5. raw_gesture l (hs ! (n - i)) = Inr (gs ! n))"
proof -
  have lab: "hand_label (HandRecog_init l) = l"
    by (simp add: HandRecog_init_def)
  from feed_ok_raw [OF f lab] obtain cs where
    cs: "list_all2 (\<lambda>h c. raw_gesture l h = Inr c) hs cs"
    by auto
  have v: "dview (HandRecog_init l) = (PALM, PALM, 0)"
    by (simp add: dview_def HandRecog_init_def)
  from feed_drun [OF cs lab] f have gs: "gs = fst (drun cs (PALM, PALM, 0))"
    by (auto simp: v)
  have len: "length cs = length hs"
    using cs by (simp add: list_all2_lengthD)
  have nth: "raw_gesture l (hs ! i) = Inr (cs ! i)" if "i < length hs" for i
    using cs that by (simp add: list_all2_conv_all_nth)
  have "PALM \<notin> set cs"
  proof
    assume "PALM \<in> set cs"
    then obtain i where "i < length cs" "cs ! i = PALM"
      by (auto simp: in_set_conv_nth)
    with nth [of i] len have "raw_gesture l (hs ! i) = Inr PALM" by simp
    from raw_gesture_not_PALM [OF this] show False by simp
  qed
  from drun_change [OF this _ ch [unfolded gs]] n len
  have r: "5 \<le> n" "\<forall>i\<le>5. cs ! (n - i) = gs ! n"
    by (simp_all add: gs)
  have "raw_gesture l (hs ! (n - i)) = Inr (gs ! n)" if "i \<le> 5" for i
    using nth [of "n - i"] n r(2) that by simp
  with r(1) show ?thesis
    by simp
qed

text \<open>
  C7, as the code has it. From a state whose run counter is 0, or whose previous raw
  gesture is not \<open>A\<close>, or whose settled gesture is \<open>A\<close> already: four frames of raw
  gesture \<open>A\<close>, one frame of another raw gesture \<open>B\<close> and up to five more frames of \<open>A\<close>
  return the settled gesture of before on every frame and leave it settled. And from the
  initial state, on a stream of frames with a hand, the gesture returned on a frame
  differs from the one before only if that frame and the five frames before it have the
  same raw gesture, which is the gesture returned.
\<close>

theorem settled_gesture_needs_run:
  "(length as = 4 \<and> (\<forall>h \<in> set as. raw_gesture (hand_label st) h = Inr A) \<and>
    raw_gesture (hand_label st) b = Inr B \<and> B \<noteq> A \<and>
    length as' \<le> 5 \<and> (\<forall>h \<in> set as'. raw_gesture (hand_label st) h = Inr A) \<and>
    (frame_count st = 0 \<or> prev_gesture st \<noteq> A \<or> ori_gesture st = A)
    \<longrightarrow> (\<exists>st'. feed (map Some (as @ [b] @ as')) st
                  = Inr (replicate (4 + 1 + length as') (ori_gesture st), st') \<and>
               ori_gesture st' = ori_gesture st \<and> frame_count st' < 5))
   \<and>
   (feed (map Some hs) (HandRecog_init l) = Inr (gs, st2) \<and> n < length hs \<and>
    gs ! n \<noteq> (if n = 0 then PALM else gs ! (n - 1))
    \<longrightarrow> 5 \<le> n \<and> (\<forall>i\<le>5. raw_gesture l (hs ! (n - i)) = Inr (gs ! n)))"
  using interrupted_run [of as st A b B as'] settled_change [of hs l gs st2 n]
  by blast

lemma feed_six_fists:
  "feed (map Some [fist_hand, fist_hand, fist_hand, fist_hand, fist_hand, fist_hand])
        (HandRecog_init MAJOR)
     = Inr ([PALM, PALM, PALM, PALM, PALM, FIST],
            \<lparr>finger = FIST, ori_gesture = FIST, prev_gesture = FIST, frame_count = 5,
             hand_result = Some fist_hand, hand_label = MAJOR\<rparr>)"
  by (simp add: recog_fist_hand debounce_rec HandRecog_init_def) (simp add: Gest_defs)

theorem settled_gesture_needs_run_witness:
  "(\<exists>st'. feed (map Some ([fist_hand, fist_hand, fist_hand, fist_hand] @ [open_hand]
                           @ [fist_hand])) (HandRecog_init MAJOR)
             = Inr (replicate (4 + 1 + length [fist_hand]) PALM, st') \<and>
          ori_gesture st' = PALM) \<and>
   feed (map Some [fist_hand, fist_hand, fist_hand, fist_hand, fist_hand, fist_hand])
        (HandRecog_init MAJOR)
     = Inr ([PALM, PALM, PALM, PALM, PALM, FIST],
            \<lparr>finger = FIST, ori_gesture = FIST, prev_gesture = FIST, frame_count = 5,
             hand_result = Some fist_hand, hand_label = MAJOR\<rparr>) \<and>
   raw_gesture MAJOR fist_hand = Inr FIST \<and> raw_gesture MAJOR open_hand = Inr LAST4 \<and>
   LAST4 \<noteq> FIST"
proof -
  note t = settled_gesture_needs_run [where as = "[fist_hand, fist_hand, fist_hand, fist_hand]"
      and st = "HandRecog_init MAJOR" and A = FIST and b = open_hand and B = LAST4
      and as' = "[fist_hand]"
      and hs = "[fist_hand, fist_hand, fist_hand, fist_hand, fist_hand, fist_hand]"
      and l = MAJOR and gs = "[PALM, PALM, PALM, PALM, PALM, FIST]"
      and ?st2.0 = "\<lparr>finger = FIST, ori_gesture = FIST, prev_gesture = FIST, frame_count = 5,
             hand_result = Some fist_hand, hand_label = MAJOR\<rparr>"
      and n = 5]
  have ne: "LAST4 \<noteq> FIST" by (simp add: Gest_defs)
  have fc: "frame_count (HandRecog_init MAJOR) = 0" "ori_gesture (HandRecog_init MAJOR) = PALM"
    by (simp_all add: HandRecog_init_def)
  have ne2: "FIST \<noteq> PALM" by (simp add: Gest_defs)
  have q1: "\<exists>st'. feed (map Some ([fist_hand, fist_hand, fist_hand, fist_hand] @ [open_hand]
                           @ [fist_hand])) (HandRecog_init MAJOR)
             = Inr (replicate (4 + 1 + length [fist_hand]) PALM, st') \<and>
          ori_gesture st' = PALM"
    using t [THEN conjunct1] ne fc by (auto simp add: raw_fist_hand raw_open_hand)
  have "\<forall>i\<le>5. raw_gesture MAJOR
      ([fist_hand, fist_hand, fist_hand, fist_hand, fist_hand, fist_hand] ! (5 - i)) = Inr FIST"
    using t [THEN conjunct2] ne2 feed_six_fists by simp
  then have "raw_gesture MAJOR
      ([fist_hand, fist_hand, fist_hand, fist_hand, fist_hand, fist_hand] ! (5 - 5)) = Inr FIST"
    by blast
  then have q2: "raw_gesture MAJOR fist_hand = Inr FIST"
    by simp
  show ?thesis
    using q1 q2 feed_six_fists ne by (simp add: raw_open_hand)
qed

text \<open>
  After five fist frames the settled gesture is still \<open>PALM\<close>, the previous raw gesture
  is \<open>FIST\<close> and the counter is 4. From this state the first of four fist frames settles
  \<open>FIST\<close>; the interruption by an open hand and the resumed fist come too late.
\<close>

theorem settled_gesture_changes_within_four:
  "feed [Some fist_hand, Some fist_hand, Some fist_hand, Some fist_hand, Some fist_hand]
        (HandRecog_init MAJOR)
     = Inr ([PALM, PALM, PALM, PALM, PALM],
            \<lparr>finger = FIST, ori_gesture = PALM, prev_gesture = FIST, frame_count = 4,
             hand_result = Some fist_hand, hand_label = MAJOR\<rparr>) \<and>
   feed [Some fist_hand, Some fist_hand, Some fist_hand, Some fist_hand, Some open_hand,
         Some fist_hand]
        \<lparr>finger = FIST, ori_gesture = PALM, prev_gesture = FIST, frame_count = 4,
         hand_result = Some fist_hand, hand_label = MAJOR\<rparr>
     = Inr ([FIST, FIST, FIST, FIST, FIST, FIST],
            \<lparr>finger = FIST, ori_gesture = FIST, prev_gesture = FIST, frame_count = 0,
             hand_result = Some fist_hand, hand_label = MAJOR\<rparr>) \<and>
   raw_gesture MAJOR fist_hand = Inr FIST \<and> raw_gesture MAJOR open_hand = Inr LAST4 \<and>
   LAST4 \<noteq> FIST \<and> FIST \<noteq> PALM"
  by (simp add: recog_fist_hand recog_open_hand debounce_rec HandRecog_init_def raw_fist_hand
      raw_open_hand)
    (simp add: Gest_defs)

section \<open>Properties of the controller\<close>

subsection \<open>Cursor damping\<close>

lemma sqrt_36: "sqrt 36 = 6"
  by (rule real_sqrt_unique) simp_all

lemma get_position_Some:
  assumes "hand_landmark r 9 = Inr p" and "prev_hand c = Some (px, py)"
    and "screen_size env = (sx, sy)" and "cursor_position env = (x_old, y_old)"
  shows "get_position env r c =
     ((of_int x_old + of_int (py_int (lm_x p * of_int sx) - px)
          * damping_ratio ((py_int (lm_x p * of_int sx) - px)\<^sup>2
                           + (py_int (lm_y p * of_int sy) - py)\<^sup>2),
       of_int y_old + of_int (py_int (lm_y p * of_int sy) - py)
          * damping_ratio ((py_int (lm_x p * of_int sx) - px)\<^sup>2
                           + (py_int (lm_y p * of_int sy) - py)\<^sup>2)),
      c\<lparr>prev_hand := Some (py_int (lm_x p * of_int sx), py_int (lm_y p * of_int sy))\<rparr>)"
  using assms by (simp add: get_position_def Let_def)

text \<open>
  C6, as the code has it. With \<open>delta\<close> the difference between the hand position in
  pixels and the one of the frame before: for a squared length of at most 25 the position
  returned is the old cursor position; between 25 and 900 it is the old position plus
  \<open>delta\<close> times \<open>0.07 * sqrt\<close> of the squared length; above 900 the factor is 2.1. A
  \<open>delta\<close> of \<open>(5, 0)\<close> does not move the cursor; a \<open>delta\<close> of \<open>(6, 0)\<close> moves it by
  \<open>6 * (0.07 * 6)\<close>, that is 2.52 pixels, in x.
\<close>

theorem get_position_damping:
  assumes "hand_landmark r 9 = Inr p" and "prev_hand c = Some (px, py)"
    and "screen_size env = (sx, sy)" and "cursor_position env = (x_old, y_old)"
    and "py_int (lm_x p * of_int sx) - px = delta_x"
    and "py_int (lm_y p * of_int sy) - py = delta_y"
  shows "(delta_x\<^sup>2 + delta_y\<^sup>2 \<le> 25 \<longrightarrow>
            fst (get_position env r c) = (of_int x_old, of_int y_old)) \<and>
         (25 < delta_x\<^sup>2 + delta_y\<^sup>2 \<and> delta_x\<^sup>2 + delta_y\<^sup>2 \<le> 900 \<longrightarrow>
            fst (get_position env r c) =
              (of_int x_old + of_int delta_x * (0.07 * sqrt (of_int (delta_x\<^sup>2 + delta_y\<^sup>2))),
               of_int y_old + of_int delta_y * (0.07 * sqrt (of_int (delta_x\<^sup>2 + delta_y\<^sup>2))))) \<and>
         (900 < delta_x\<^sup>2 + delta_y\<^sup>2 \<longrightarrow>
            fst (get_position env r c) =
              (of_int x_old + of_int delta_x * 2.1, of_int y_old + of_int delta_y * 2.1)) \<and>
         (delta_x = 5 \<and> delta_y = 0 \<longrightarrow>
            fst (get_position env r c) = (of_int x_old, of_int y_old)) \<and>
         (delta_x = 6 \<and> delta_y = 0 \<longrightarrow>
            fst (get_position env r c) = (of_int x_old + 6 * (0.07 * 6), of_int y_old))"
  unfolding get_position_Some [OF assms(1-4)] assms(5,6) fst_conv
  by (auto simp: damping_ratio_def sqrt_36)

lemma landmark9_open_hand: "hand_landmark (Some open_hand) 9 = Inr (lmk 0.5 0.5 0)"
  by (simp add: hand_landmark_def landmark_at_def open_hand_def)

theorem get_position_damping_witness:
  "fst (get_position env0 (Some open_hand) (Controller_init\<lparr>prev_hand := Some (494, 500)\<rparr>))
     = (300 + 6 * (0.07 * 6), 300) \<and>
   fst (get_position env0 (Some open_hand) (Controller_init\<lparr>prev_hand := Some (495, 500)\<rparr>))
     = (300, 300) \<and>
   fst (get_position env0 (Some open_hand) (Controller_init\<lparr>prev_hand := Some (460, 470)\<rparr>))
     = (300 + 40 * 2.1, 300 + 30 * 2.1)"
proof -
  have e: "screen_size env0 = (1000, 1000)" "cursor_position env0 = (300, 300)"
    by (simp_all add: env0_def)
  have d6: "py_int (lm_x (lmk 0.5 0.5 0) * of_int 1000) - 494 = 6"
    "py_int (lm_y (lmk 0.5 0.5 0) * of_int 1000) - 500 = 0"
    by (simp_all add: py_int_def)
  have d5: "py_int (lm_x (lmk 0.5 0.5 0) * of_int 1000) - 495 = 5"
    by (simp add: py_int_def)
  have d40: "py_int (lm_x (lmk 0.5 0.5 0) * of_int 1000) - 460 = 40"
    "py_int (lm_y (lmk 0.5 0.5 0) * of_int 1000) - 470 = 30"
    by (simp_all add: py_int_def)
  have p: "prev_hand (Controller_init\<lparr>prev_hand := Some q\<rparr>) = Some q" for q
    by simp
  show ?thesis
    using get_position_damping [OF landmark9_open_hand p e d6]
      get_position_damping [OF landmark9_open_hand p e d5 d6(2)]
      get_position_damping [OF landmark9_open_hand p e d40]
    by simp
qed

text \<open>
  The hand moved 6 pixels to the right: the cursor moves by 2.52 pixels, not by
  \<open>0.07 * 6\<close>.
\<close>

theorem get_position_six_pixels:
  "fst (get_position env0 (Some open_hand) (Controller_init\<lparr>prev_hand := Some (494, 500)\<rparr>))
     = (300 + 2.52, 300) \<and>
   (300 + 2.52 :: real) \<noteq> 300 + 0.07 * 6"
  by (simp add: get_position_Some [OF landmark9_open_hand _ _ _] env0_def py_int_def
      damping_ratio_def sqrt_36)

subsection \<open>The combined pinch branch\<close>

text \<open>
  C10. No gesture value equals both \<open>PINCH_MAJOR\<close> and \<open>PINCH_MINOR\<close>, and for no
  gesture, hand and controller state does \<open>handle_controls\<close> end in the error that
  entering the last branch would raise: the branch is never executed.
\<close>

theorem handle_controls_combined_pinch_dead:
  "\<not> (gesture = PINCH_MAJOR \<and> gesture = PINCH_MINOR) \<and>
   handle_controls env gesture r c \<noteq> Inl (AttributeError ''get_pinch_gap'')"
proof -
  let ?dead = "Inl (AttributeError ''get_pinch_gap'') :: py_error + action list \<times> Controller"
  have i: "pinch_control_init r c' \<noteq> Inl (AttributeError ''get_pinch_gap'')" for c'
    by (auto simp: pinch_control_init_def hand_landmark_def landmark_at_def
        split: sum.splits option.splits)
  have p: "pinch_control r H V c' \<noteq> ?dead" for c' H V
    by (auto simp: pinch_control_def getpinchxlv_def getpinchylv_def hand_landmark_def
        landmark_at_def split: sum.splits option.splits prod.splits)
  have g: "\<not> (gesture = PINCH_MAJOR \<and> gesture = PINCH_MINOR)"
    by (simp add: Gest_defs)
  obtain xy c0 where xy: "(if gesture \<noteq> PALM
        then (case get_position env r c of (q, c') \<Rightarrow> (Some q, c')) else (None, c)) = (xy, c0)"
    by (cases "(if gesture \<noteq> PALM
        then (case get_position env r c of (q, c') \<Rightarrow> (Some q, c')) else (None, c))")
  obtain a1 c1 where fr: "flag_reset gesture c0 = (a1, c1)"
    by (cases "flag_reset gesture c0")
  have pm: "(case (if \<not> pinchminorflag c1
                     then (case pinch_control_init r c1 of Inl e \<Rightarrow> Inl e
                           | Inr c2 \<Rightarrow> Inr (c2\<lparr>pinchminorflag := True\<rparr>))
                     else Inr c1) of
                 Inl e \<Rightarrow> Inl e
               | Inr c3 \<Rightarrow>
                  (case pinch_control r scrollHorizontal scrollVertical c3 of
                     Inl e \<Rightarrow> Inl e
                   | Inr (a2, c4) \<Rightarrow> Inr (a1 @ a2, c4))) \<noteq> ?dead"
    using i [of c1] p by (auto split: sum.splits)
  have "handle_controls env gesture r c \<noteq> ?dead"
    unfolding handle_controls_def Let_def
    unfolding xy prod.case fr
    using g pm by simp
  with g show ?thesis by simp
qed

subsection \<open>Pinch scrolling\<close>




















section \<open>Properties of the hand roles\<close>

lemma handedness_label_handedness:
  "handedness_label (one_hand (handedness score label) h) 0 = Inr (JStr label)"
  by (simp add: handedness_label_def one_hand_def handedness_def opt_index_def MessageToDict_def)

lemma handedness_label_one_hand_1:
  "handedness_label (one_hand m h) 1 = Inl IndexError"
  "handedness_label (one_hand m h) (Suc 0) = Inl IndexError"
  by (simp_all add: handedness_label_def one_hand_def opt_index_def)





section \<open>Properties of the frame loop\<close>

lemma classify_hands_roles:
  "hr_major (classify_hands res g) = major_hand (dom_hand g) res"
  "hr_minor (classify_hands res g) = minor_hand (dom_hand g) res"
  "dom_hand (classify_hands res g) = dom_hand g"
  by (simp_all add: classify_hands_def major_hand_def minor_hand_def Let_def)

lemma dstep_fist_state: "dstep FIST (fist_state j) = fist_state (Suc j)"
  by (auto simp: fist_state_def dstep_def Let_def Gest_defs)

lemma fst_fist_state: "fst (fist_state j) = (if 6 \<le> j then FIST else PALM)"
  by (auto simp: fist_state_def)

lemma ori_gesture_dview: "ori_gesture st = fst (dview st)"
  by (simp add: dview_def)

lemma fst_fist_state_Suc: "fst (fist_state (Suc j)) = (if 5 \<le> j then FIST else PALM)"
  by (auto simp: fist_state_def)

lemma process_frame_fist:
  assumes ff: "fist_frame (dom_hand (gc s)) res" and lab: "hand_label (handmajor s) = MAJOR"
  shows "\<exists>h hm hn g1.
     process_frame env res s =
       (case handle_controls env (fst (dstep FIST (dview (handmajor s)))) (Some h) (ctl s) of
          Inl e \<Rightarrow> Inl e
        | Inr (acts, c1) \<Rightarrow> Inr (acts, \<lparr>gc = g1, handmajor = hm, handminor = hn, ctl = c1\<rparr>)) \<and>
     dom_hand g1 = dom_hand (gc s) \<and> dview hm = dstep FIST (dview (handmajor s)) \<and>
     hand_label hm = MAJOR"
proof -
  let ?g1 = "classify_hands res (gc s)"
  from ff obtain h where mh: "major_hand (dom_hand (gc s)) res = Some h"
    and raw: "raw_gesture MAJOR h = Inr FIST"
    and mn: "minor_hand (dom_hand (gc s)) res = None"
    and tr: "truthy (multi_hand_landmarks res)"
    by (auto simp: fist_frame_def split: option.splits)
  from raw lab have "raw_gesture (hand_label (handmajor s)) h = Inr FIST" by simp
  from recog_frame_raw [OF this] obtain hm where
    rf: "recog_frame (Some h) (handmajor s) = Inr (fst (dstep FIST (dview (handmajor s))), hm)"
    and dv: "dview hm = dstep FIST (dview (handmajor s))"
    and hl: "hand_label hm = MAJOR" and hr: "hand_result hm = Some h"
    using lab by auto
  from rf obtain st1 where
    sf: "set_finger_state (update_hand_result (Some h) (handmajor s)) = Inr st1"
    and gg: "get_gesture st1 = Inr (fst (dstep FIST (dview (handmajor s))), hm)"
    by (auto simp: recog_frame_def split: sum.splits)
  let ?hn = "(handminor s)\<lparr>hand_result := None\<rparr>"
  have sn: "set_finger_state (update_hand_result None (handminor s)) = Inr ?hn"
    by (simp add: set_finger_state_def update_hand_result_def)
  have gn: "get_gesture ?hn = Inr (PALM, ?hn)"
    by (simp add: get_gesture_def)
  have ne: "PALM \<noteq> PINCH_MINOR" by (simp add: Gest_defs)
  have "process_frame env res s =
       (case handle_controls env (fst (dstep FIST (dview (handmajor s)))) (Some h) (ctl s) of
          Inl e \<Rightarrow> Inl e
        | Inr (acts, c1) \<Rightarrow> Inr (acts, \<lparr>gc = ?g1, handmajor = hm, handminor = ?hn, ctl = c1\<rparr>))"
    using tr ne
    by (simp add: process_frame_def Let_def classify_hands_roles mh mn sf sn gn gg hr)
  with dv hl show ?thesis
    by (intro exI [of _ h] exI [of _ hm] exI [of _ ?hn] exI [of _ ?g1])
      (simp add: classify_hands_roles)
qed

lemma get_position_grabflag: "grabflag (snd (get_position env r c)) = grabflag c"
  by (simp add: get_position_def Let_def split: sum.splits)

lemma handle_controls_PALM:
  assumes "\<not> grabflag c"
  shows "\<exists>c'. handle_controls env PALM r c = Inr ([], c') \<and> \<not> grabflag c'"
  using assms
  by (simp add: handle_controls_def flag_reset_def Let_def Gest_defs)

lemma handle_controls_FIST:
  "\<exists>x y c'. handle_controls env FIST r c =
      Inr (if grabflag c then [MoveTo x y] else [MouseDown ''left'', MoveTo x y], c') \<and>
      grabflag c'"
proof -
  obtain q c0 where gp: "get_position env r c = (q, c0)"
    by (cases "get_position env r c")
  with get_position_grabflag [of env r c] have g: "grabflag c0 = grabflag c"
    by simp
  show ?thesis
    using g by (simp add: handle_controls_def gp flag_reset_def Let_def Gest_defs)
qed

lemma run_fist_frames:
  assumes "\<forall>f \<in> set fs. fist_frame (dom_hand (gc s)) (snd f)"
    and "dview (handmajor s) = fist_state j" and "hand_label (handmajor s) = MAJOR"
    and "grabflag (ctl s) = (6 \<le> j)"
  shows "\<exists>as s'. run_frames fs s = Inr (as, s') \<and> length as = length fs \<and>
     (\<forall>i<length fs. \<exists>x y. as ! i =
        (if i + j < 5 then [] else if i + j = 5 then [MouseDown ''left'', MoveTo x y]
         else [MoveTo x y])) \<and>
     dview (handmajor s') = fist_state (j + length fs) \<and>
     grabflag (ctl s') = (6 \<le> j + length fs)"
  using assms
proof (induction fs arbitrary: s j)
  case Nil
  then show ?case by simp
next
  case (Cons f fs)
  from Cons.prems(1) have ff: "fist_frame (dom_hand (gc s)) (snd f)" by simp
  from process_frame_fist [OF ff Cons.prems(3), of "fst f"] obtain h hm hn g1 where
    pf: "process_frame (fst f) (snd f) s =
       (case handle_controls (fst f) (fst (dstep FIST (dview (handmajor s)))) (Some h) (ctl s) of
          Inl e \<Rightarrow> Inl e
        | Inr (acts, c1) \<Rightarrow> Inr (acts, \<lparr>gc = g1, handmajor = hm, handminor = hn, ctl = c1\<rparr>))"
    and dg: "dom_hand g1 = dom_hand (gc s)"
    and dv: "dview hm = dstep FIST (dview (handmajor s))"
    and hl: "hand_label hm = MAJOR"
    by blast
  have dv': "dview hm = fist_state (Suc j)"
    using dv Cons.prems(2) by (simp add: dstep_fist_state)
  have g: "fst (dstep FIST (dview (handmajor s))) = (if 5 \<le> j then FIST else PALM)"
    using Cons.prems(2) by (simp add: dstep_fist_state fst_fist_state_Suc)
  have "\<exists>x y c1. handle_controls (fst f) (if 5 \<le> j then FIST else PALM) (Some h) (ctl s) =
      Inr (if j < 5 then [] else if j = 5 then [MouseDown ''left'', MoveTo x y]
           else [MoveTo x y], c1) \<and>
      grabflag c1 = (6 \<le> Suc j)"
  proof (cases "5 \<le> j")
    case True
    from handle_controls_FIST [of "fst f" "Some h" "ctl s"] obtain x y c1 where
      "handle_controls (fst f) FIST (Some h) (ctl s) =
        Inr (if grabflag (ctl s) then [MoveTo x y] else [MouseDown ''left'', MoveTo x y], c1)"
      "grabflag c1"
      by blast
    with True Cons.prems(4) show ?thesis
      by (intro exI [of _ x] exI [of _ y] exI [of _ c1]) auto
  next
    case False
    with Cons.prems(4) have "\<not> grabflag (ctl s)" by simp
    from handle_controls_PALM [OF this, of "fst f" "Some h"] obtain c1 where
      "handle_controls (fst f) PALM (Some h) (ctl s) = Inr ([], c1)" "\<not> grabflag c1"
      by blast
    with False show ?thesis by auto
  qed
  then obtain x y c1 where
    hc: "handle_controls (fst f) (if 5 \<le> j then FIST else PALM) (Some h) (ctl s) =
      Inr (if j < 5 then [] else if j = 5 then [MouseDown ''left'', MoveTo x y]
           else [MoveTo x y], c1)"
    and gf: "grabflag c1 = (6 \<le> Suc j)"
    by blast
  let ?acts = "if j < 5 then [] else if j = 5 then [MouseDown ''left'', MoveTo x y]
           else [MoveTo x y]"
  let ?s1 = "\<lparr>gc = g1, handmajor = hm, handminor = hn, ctl = c1\<rparr>"
  have p1: "process_frame (fst f) (snd f) s = Inr (?acts, ?s1)"
    unfolding pf g hc by simp
  have "\<forall>f \<in> set fs. fist_frame (dom_hand (gc ?s1)) (snd f)"
    using Cons.prems(1) dg by simp
  moreover have "dview (handmajor ?s1) = fist_state (Suc j)" using dv' by simp
  moreover have "hand_label (handmajor ?s1) = MAJOR" using hl by simp
  moreover have "grabflag (ctl ?s1) = (6 \<le> Suc j)" using gf by simp
  ultimately obtain as s' where
    rf: "run_frames fs ?s1 = Inr (as, s')" and len: "length as = length fs"
    and sh: "\<forall>i<length fs. \<exists>x y. as ! i =
        (if i + Suc j < 5 then [] else if i + Suc j = 5 then [MouseDown ''left'', MoveTo x y]
         else [MoveTo x y])"
    and dvf: "dview (handmajor s') = fist_state (Suc j + length fs)"
    and gff: "grabflag (ctl s') = (6 \<le> Suc j + length fs)"
    using Cons.IH [of ?s1 "Suc j"] by blast
  have run: "run_frames (f # fs) s = Inr (?acts # as, s')"
    using p1 rf by simp
  have shape: "\<exists>x y. (?acts # as) ! i =
        (if i + j < 5 then [] else if i + j = 5 then [MouseDown ''left'', MoveTo x y]
         else [MoveTo x y])" if "i < length (f # fs)" for i
  proof (cases i)
    case 0
    then show ?thesis by auto
  next
    case (Suc k)
    with that have "k < length fs" by simp
    with sh obtain x' y' where "as ! k =
        (if k + Suc j < 5 then [] else if k + Suc j = 5 then [MouseDown ''left'', MoveTo x' y']
         else [MoveTo x' y'])"
      by blast
    with Suc show ?thesis
      by (intro exI [of _ x'] exI [of _ y']) simp
  qed
  show ?case
    using run len shape dvf gff
    by (intro exI [of _ "?acts # as"] exI [of _ s']) simp
qed

lemma fist_frame_fist_results: "fist_frame True fist_results"
proof -
  have "classify_slot fist_results 0 (None, None) = (None, Some fist_hand)"
    by (simp add: classify_slot_def fist_results_def handedness_label_handedness)
      (simp add: one_hand_def opt_index_def)
  moreover have "classify_slot fist_results 1 lr = lr" for lr
    by (simp add: classify_slot_def fist_results_def handedness_label_one_hand_1)
  moreover have "truthy (multi_hand_landmarks fist_results)"
    by (simp add: truthy_def fist_results_def one_hand_def)
  ultimately show ?thesis
    by (simp add: fist_frame_def major_hand_def minor_hand_def raw_fist_hand)
qed

lemma session_init_fields:
  "dom_hand (gc session_init) = True" "handmajor session_init = HandRecog_init MAJOR"
  "grabflag (ctl session_init) = False"
  by (simp_all add: session_init_def GestureController_init_def Controller_init_def)

text \<open>
  C2, as the code has it. From the initial recogniser with no button held, on any frames
  whose only hand is a major hand with raw gesture \<open>FIST\<close>: the first five frames do
  nothing, the settled gesture stays \<open>PALM\<close>; the sixth frame settles \<open>FIST\<close> and is the
  one frame that presses the left button (and moves the cursor); every later frame only
  moves the cursor.
\<close>

theorem fist_pressed_on_sixth_frame:
  assumes "\<forall>f \<in> set fs. fist_frame (dom_hand (gc s)) (snd f)"
    and "handmajor s = HandRecog_init MAJOR" and "\<not> grabflag (ctl s)"
  shows "\<exists>as s'. run_frames fs s = Inr (as, s') \<and> length as = length fs \<and>
     (\<forall>i<length fs. \<exists>x y. as ! i =
        (if i < 5 then [] else if i = 5 then [MouseDown ''left'', MoveTo x y]
         else [MoveTo x y])) \<and>
     ori_gesture (handmajor s') = (if 6 \<le> length fs then FIST else PALM) \<and>
     grabflag (ctl s') = (6 \<le> length fs)"
proof -
  have dv: "dview (handmajor s) = fist_state 0"
    using assms(2) by (simp add: dview_def HandRecog_init_def fist_state_def)
  have lab: "hand_label (handmajor s) = MAJOR"
    using assms(2) by (simp add: HandRecog_init_def)
  have gf: "grabflag (ctl s) = (6 \<le> (0::nat))"
    using assms(3) by simp
  from run_fist_frames [OF assms(1) dv lab gf] obtain as s' where
    r: "run_frames fs s = Inr (as, s')" "length as = length fs"
      "\<forall>i<length fs. \<exists>x y. as ! i =
        (if i + 0 < 5 then [] else if i + 0 = 5 then [MouseDown ''left'', MoveTo x y]
         else [MoveTo x y])"
      "dview (handmajor s') = fist_state (0 + length fs)"
      "grabflag (ctl s') = (6 \<le> 0 + length fs)"
    by blast
  from r(4) have ori: "ori_gesture (handmajor s') = (if 6 \<le> length fs then FIST else PALM)"
    by (simp add: ori_gesture_dview fst_fist_state)
  have sh: "\<forall>i<length fs. \<exists>x y. as ! i =
        (if i < 5 then [] else if i = 5 then [MouseDown ''left'', MoveTo x y]
         else [MoveTo x y])"
    using r(3) unfolding add_0_right .
  have gf': "grabflag (ctl s') = (6 \<le> length fs)"
    using r(5) by simp
  from r(1,2) sh ori gf' show ?thesis
    by blast
qed

theorem fist_pressed_on_sixth_frame_witness:
  "fist_frame (dom_hand (gc session_init)) fist_results \<and>
   handmajor session_init = HandRecog_init MAJOR \<and> \<not> grabflag (ctl session_init) \<and>
   (\<exists>as s'. run_frames [(env0, fist_results), (env0, fist_results), (env0, fist_results),
                          (env0, fist_results), (env0, fist_results), (env0, fist_results)]
               session_init = Inr (as, s') \<and>
      as ! 0 = [] \<and> as ! 1 = [] \<and> as ! 2 = [] \<and> as ! 3 = [] \<and> as ! 4 = [] \<and>
      (\<exists>x y. as ! 5 = [MouseDown ''left'', MoveTo x y]) \<and>
      ori_gesture (handmajor s') = FIST \<and> grabflag (ctl s'))"
proof -
  let ?fs = "[(env0, fist_results), (env0, fist_results), (env0, fist_results),
              (env0, fist_results), (env0, fist_results), (env0, fist_results)]"
  have a: "\<forall>f \<in> set ?fs. fist_frame (dom_hand (gc session_init)) (snd f)"
    by (simp add: session_init_fields fist_frame_fist_results)
  have g: "\<not> grabflag (ctl session_init)"
    by (simp add: session_init_fields)
  from fist_pressed_on_sixth_frame [OF a session_init_fields(2) g] obtain as s' where
    r: "run_frames ?fs session_init = Inr (as, s')"
      "\<forall>i<length ?fs. \<exists>x y. as ! i =
        (if i < 5 then [] else if i = 5 then [MouseDown ''left'', MoveTo x y]
         else [MoveTo x y])"
      "ori_gesture (handmajor s') = (if 6 \<le> length ?fs then FIST else PALM)"
      "grabflag (ctl s') = (6 \<le> length ?fs)"
    by blast
  from r(2) have "\<exists>x y. as ! i =
        (if i < 5 then [] else if i = 5 then [MouseDown ''left'', MoveTo x y]
         else [MoveTo x y])" if "i < 6" for i
    using that by simp
  from this [of 0] this [of 1] this [of 2] this [of 3] this [of 4] this [of 5]
  have "as ! 0 = []" "as ! 1 = []" "as ! 2 = []" "as ! 3 = []" "as ! 4 = []"
    "\<exists>x y. as ! 5 = [MouseDown ''left'', MoveTo x y]"
    by simp_all
  with r(1,3,4) show ?thesis
    using session_init_fields fist_frame_fist_results g by auto
qed

text \<open>
  Five fist frames from the initial session: no action at all, and the settled gesture of
  the major hand is still \<open>PALM\<close>.
\<close>

theorem five_fist_frames_press_nothing:
  "map_sum id fst
     (run_frames [(env0, fist_results), (env0, fist_results), (env0, fist_results),
                  (env0, fist_results), (env0, fist_results)] session_init)
     = Inr [[], [], [], [], []] \<and>
   map_sum id (ori_gesture \<circ> handmajor \<circ> snd)
     (run_frames [(env0, fist_results), (env0, fist_results), (env0, fist_results),
                  (env0, fist_results), (env0, fist_results)] session_init)
     = Inr PALM \<and>
   raw_gesture MAJOR fist_hand = Inr FIST \<and> FIST \<noteq> PALM"
proof -
  let ?fs = "[(env0, fist_results), (env0, fist_results), (env0, fist_results),
              (env0, fist_results), (env0, fist_results)]"
  have a: "\<forall>f \<in> set ?fs. fist_frame (dom_hand (gc session_init)) (snd f)"
    by (simp add: session_init_fields fist_frame_fist_results)
  have dv: "dview (handmajor session_init) = fist_state 0"
    by (simp add: session_init_fields dview_def HandRecog_init_def fist_state_def)
  have lab: "hand_label (handmajor session_init) = MAJOR"
    by (simp add: session_init_fields HandRecog_init_def)
  have gf: "grabflag (ctl session_init) = (6 \<le> (0::nat))"
    by (simp add: session_init_fields)
  from run_fist_frames [OF a dv lab gf] obtain as s' where
    r: "run_frames ?fs session_init = Inr (as, s')" "length as = length ?fs"
      "\<forall>i<length ?fs. \<exists>x y. as ! i =
        (if i + 0 < 5 then [] else if i + 0 = 5 then [MouseDown ''left'', MoveTo x y]
         else [MoveTo x y])"
      "dview (handmajor s') = fist_state (0 + length ?fs)"
    by blast
  have "as = [[], [], [], [], []]"
  proof (rule nth_equalityI)
    show "length as = length [[], [], [], [], []]"
      using r(2) by simp
    show "as ! i = [[], [], [], [], []] ! i" if "i < length as" for i
    proof -
      from that r(2) have i: "i < 5" by simp
      with r(3) have "as ! i = []" by simp
      moreover from i have "[[], [], [], [], []] ! i = ([] :: action list)"
        by (simp add: nth_Cons split: nat.splits)
      ultimately show ?thesis by simp
    qed
  qed
  moreover from r(4) have "ori_gesture (handmajor s') = PALM"
    by (simp add: ori_gesture_dview fst_fist_state)
  ultimately show ?thesis
    using r(1) by (simp add: raw_fist_hand Gest_defs)
qed

end
